theory Spec2Isabelle
  imports Main
begin

section \<open>Python values, exceptions and the persisted files\<close>

text \<open>
  The model follows \<^verbatim>\<open>teqbot/teq.py\<close>, \<^verbatim>\<open>teqbot/log.py\<close>, \<^verbatim>\<open>teqbot/stream.py\<close> and
  \<^verbatim>\<open>teqbot/__main__.py\<close>. Every exception the modelled code can raise is a value of
  \<open>exn\<close>. The environment variables read by \<^verbatim>\<open>TeqBot.__init__\<close> are taken as set, file
  writes as succeeding, and text written to the terminal by \<^verbatim>\<open>print\<close> is left out. Strings
  are ASCII text, one \<open>char\<close> for each character, and the files are those of a POSIX system,
  where writing in text mode stores the characters as they are.
\<close>

datatype exn =
    ValueError
  | ZeroDivisionError
  | TypeError
  | IndexError
  | KeyError string
  | FileNotFoundError string
  | OSError

text \<open>
  The values \<^verbatim>\<open>json.load\<close> gives for the fields of a record. Only scalar values are
  modelled: no nested lists or objects and no floats.
\<close>

datatype jval = JNull | JBool bool | JNum int | JStr string

text \<open>
  A record is a Python \<^verbatim>\<open>dict\<close> in insertion order: an association list whose keys are
  distinct.
\<close>

type_synonym jrecord = "(string \<times> jval) list"

text \<open>Python's \<^verbatim>\<open>==\<close> on these values: \<^verbatim>\<open>True == 1\<close> and \<^verbatim>\<open>False == 0\<close> hold.\<close>

fun py_eq :: "jval \<Rightarrow> jval \<Rightarrow> bool" where
  "py_eq JNull JNull = True"
| "py_eq (JBool a) (JBool b) = (a = b)"
| "py_eq (JNum a) (JNum b) = (a = b)"
| "py_eq (JStr a) (JStr b) = (a = b)"
| "py_eq (JBool a) (JNum b) = ((if a then 1 else 0) = b)"
| "py_eq (JNum a) (JBool b) = (a = (if b then 1 else 0))"
| "py_eq _ _ = False"

text \<open>
  The state a task can see and change: the three marker files of the working directory
  (\<^verbatim>\<open>.teq.song\<close>, \<^verbatim>\<open>.teq.stat\<close>, \<^verbatim>\<open>.teq.lyric\<close>), the two JSON files of the logger
  directory, the field \<^verbatim>\<open>TeqBot.lastSong\<close>, and the calls made to the two outbound
  collaborators: \<open>slack\<close> holds the arguments of every \<^verbatim>\<open>teq_message\<close> call (message,
  channel name, emoji) and \<open>tunein_posts\<close> the metadata of every \<^verbatim>\<open>tunein\<close> call that gets
  as far as its HTTP request, oldest first. A file that does not exist is \<open>None\<close>; a file
  that exists holds the characters last written to it.
\<close>

record world =
  song_file :: "string option"
  stat_file :: "string option"
  lyric_file :: "string option"
  swear_json :: "jrecord option"
  last_swear_json :: "jrecord option"
  lastSong :: string
  slack :: "(string \<times> string \<times> string) list"
  tunein_posts :: "string list"

definition ROBOT_EMOJI :: string where "ROBOT_EMOJI = '':robot_face:''"
definition SKULL_EMOJI :: string where "SKULL_EMOJI = '':skull:''"
definition MUSIC_EMOJI :: string where "MUSIC_EMOJI = '':musical_note:''"

definition NL :: string where "NL = [CHR 0x0A]"
definition TAB :: string where "TAB = [CHR 0x09]"

text \<open>\<^verbatim>\<open>TeqBot.teq_message\<close>: one call to the notification sink.\<close>

definition teq_message :: "string \<Rightarrow> string \<Rightarrow> string \<Rightarrow> world \<Rightarrow> world" where
  "teq_message message channel emoji w = w\<lparr>slack := slack w @ [(message, channel, emoji)]\<rparr>"

text \<open>Whether \<open>sep\<close> occurs in a string, as \<^verbatim>\<open>str.split(sep, 1)\<close> finds it.\<close>

fun has_infix :: "string \<Rightarrow> string \<Rightarrow> bool" where
  "has_infix sep [] = (sep = [])"
| "has_infix sep (c # cs) = (take (length sep) (c # cs) = sep \<or> has_infix sep cs)"

text \<open>
  \<^verbatim>\<open>TeqBot.tunein\<close>, a call of \<^verbatim>\<open>tunein.post\<close>. For metadata without the separator
  \<^verbatim>\<open>__by__\<close>, \<^verbatim>\<open>parseMetadata\<close> sets the artist to \<^verbatim>\<open>None\<close> and hands it to
  \<^verbatim>\<open>urllib.parse.quote_plus\<close>, which raises \<^verbatim>\<open>TypeError\<close> before any request is made.
  Otherwise the request goes out; what the network does with it is not modelled. The
  result is the exception raised, if any, and the state left behind.
\<close>

definition tunein :: "string \<Rightarrow> world \<Rightarrow> exn option \<times> world" where
  "tunein metadata w =
     (if has_infix ''__by__'' metadata
      then (None, w\<lparr>tunein_posts := tunein_posts w @ [metadata]\<rparr>)
      else (Some TypeError, w))"

section \<open>The durable state store\<close>

text \<open>
  What \<^verbatim>\<open>f.read()\<close> gives for a file opened with \<^verbatim>\<open>open(name, 'r')\<close>: text mode with universal
  newlines, where a carriage return followed by a line feed, and a carriage return alone,
  are both read as one line feed.
\<close>

fun text_read :: "string \<Rightarrow> string" where
  "text_read [] = []"
| "text_read [c] = [if c = CHR 0x0D then CHR 0x0A else c]"
| "text_read (c # d # ds) =
     (if c = CHR 0x0D \<and> d = CHR 0x0A then CHR 0x0A # text_read ds
      else if c = CHR 0x0D then CHR 0x0A # text_read (d # ds)
      else c # text_read (d # ds))"


definition set_last_song :: "string \<Rightarrow> world \<Rightarrow> world" where
  "set_last_song song w = w\<lparr>lastSong := song\<rparr>"

definition set_last_played :: "string \<Rightarrow> world \<Rightarrow> world" where
  "set_last_played song w = w\<lparr>song_file := Some song\<rparr>"

definition get_last_played :: "world \<Rightarrow> world" where
  "get_last_played w =
     (case song_file w of
        Some s \<Rightarrow> w\<lparr>lastSong := text_read s\<rparr>
      | None \<Rightarrow> w\<lparr>lastSong := ''''\<rparr>)"

definition set_last_lyric :: "string \<Rightarrow> world \<Rightarrow> world" where
  "set_last_lyric song w = w\<lparr>lyric_file := Some song\<rparr>"

definition get_last_lyric :: "world \<Rightarrow> string" where
  "get_last_lyric w = (case lyric_file w of Some s \<Rightarrow> text_read s | None \<Rightarrow> '''')"

definition set_stat_file :: "string \<Rightarrow> world \<Rightarrow> world" where
  "set_stat_file status w = w\<lparr>stat_file := Some status\<rparr>"

definition check_stat_file :: "string \<Rightarrow> world \<Rightarrow> bool" where
  "check_stat_file check w =
     (case stat_file w of Some s \<Rightarrow> (let stat = text_read s in check = stat) | None \<Rightarrow> False)"

definition delete_stat_file :: "world \<Rightarrow> world" where
  "delete_stat_file w = (case stat_file w of Some stat \<Rightarrow> w\<lparr>stat_file := None\<rparr> | None \<Rightarrow> w)"

text \<open>\<^verbatim>\<open>log.read_json\<close> opens the file without testing that it exists.\<close>

definition read_json :: "string \<Rightarrow> jrecord option \<Rightarrow> exn + jrecord" where
  "read_json filename file =
     (case file of None \<Rightarrow> Inl (FileNotFoundError filename) | Some j \<Rightarrow> Inr j)"

section \<open>The swear log: \<^verbatim>\<open>log.py\<close>\<close>

text \<open>
  One of the two loops of \<^verbatim>\<open>compare_json\<close>: it walks the items of \<open>json1\<close> in order and
  returns \<open>False\<close> at the first key that \<open>json2\<close> lacks or maps to another value.
\<close>

fun compare_items :: "jrecord \<Rightarrow> jrecord \<Rightarrow> bool" where
  "compare_items [] json2 = True"
| "compare_items ((key, v) # rest) json2 =
     (case map_of json2 key of
        None \<Rightarrow> False
      | Some v2 \<Rightarrow> if \<not> py_eq v v2 then False else compare_items rest json2)"

definition compare_json :: "jrecord \<Rightarrow> jrecord \<Rightarrow> bool" where
  "compare_json json1 json2 =
     (if \<not> compare_items json1 json2 then False
      else if \<not> compare_items json2 json1 then False
      else True)"

definition LOG_SWEAR :: int where "LOG_SWEAR = 1"

definition swear_fields :: "string list" where
  "swear_fields = [''date'', ''time'', ''song title'', ''song artist'', ''song composer'',
                   ''show name'', ''report'']"

text \<open>
  The \<^verbatim>\<open>for f in fields\<close> loop of \<^verbatim>\<open>validate\<close>. Its \<^verbatim>\<open>return True\<close> is inside the loop
  body, so the first pass through the body returns; a loop over no field falls through to
  the final \<^verbatim>\<open>return False\<close>.
\<close>

fun validate_loop :: "string list \<Rightarrow> jrecord \<Rightarrow> bool" where
  "validate_loop [] data = False"
| "validate_loop (f # fs) data = (if map_of data f = None then False else True)"

definition validate :: "jrecord \<Rightarrow> int \<Rightarrow> bool" where
  "validate data log_type =
     (if log_type = LOG_SWEAR then validate_loop swear_fields data else False)"

text \<open>
  \<^verbatim>\<open>"text" + data[key]\<close>: a missing key raises \<^verbatim>\<open>KeyError\<close>, a value that is not a string
  raises \<^verbatim>\<open>TypeError\<close>.
\<close>

definition str_item :: "jrecord \<Rightarrow> string \<Rightarrow> exn + string" where
  "str_item data key =
     (case map_of data key of
        None \<Rightarrow> Inl (KeyError key)
      | Some (JStr s) \<Rightarrow> Inr s
      | Some _ \<Rightarrow> Inl TypeError)"

definition bind_exn :: "'e + 'a \<Rightarrow> ('a \<Rightarrow> 'e + 'b) \<Rightarrow> 'e + 'b" where
  "bind_exn m f = (case m of Inl e \<Rightarrow> Inl e | Inr x \<Rightarrow> f x)"

definition generate_swear_log :: "jrecord \<Rightarrow> exn + string" where
  "generate_swear_log data =
     (if validate data LOG_SWEAR then
        bind_exn (str_item data ''show name'') (\<lambda>show_name.
        bind_exn (str_item data ''date'') (\<lambda>date.
        bind_exn (str_item data ''time'') (\<lambda>time.
        bind_exn (str_item data ''song title'') (\<lambda>title.
        bind_exn (str_item data ''song artist'') (\<lambda>artist.
        bind_exn (str_item data ''song composer'') (\<lambda>composer.
        bind_exn (str_item data ''report'') (\<lambda>report.
          Inr (''```'' @ NL
               @ ''SWEAR LOG SUBMISSION FROM '' @ show_name @ '':'' @ NL @ NL
               @ ''Date         '' @ TAB @ date @ NL
               @ ''Time         '' @ TAB @ time @ NL
               @ ''Song     Name'' @ TAB @ title @ NL
               @ ''Song   Artist'' @ TAB @ artist @ NL
               @ ''Song Composer'' @ TAB @ composer @ NL
               @ NL @ NL
               @ ''Report:    '' @ TAB @ report
               @ ''```''))))))))
      else Inr '''')"

text \<open>
  \<^verbatim>\<open>TeqBot.task_swear_log\<close>. The result is the exception that ended the task, if any, and
  the state the task left behind: the snapshot is written before the message is generated.
\<close>

definition task_swear_log :: "world \<Rightarrow> exn option \<times> world" where
  "task_swear_log w =
     (case read_json ''swear.json'' (swear_json w) of
        Inl e \<Rightarrow> (Some e, w)
      | Inr data \<Rightarrow>
         (case read_json ''lastSwear.json'' (last_swear_json w) of
            Inl e \<Rightarrow> (Some e, w)
          | Inr lastSwear \<Rightarrow>
              if \<not> compare_json data lastSwear then
                (let w1 = w\<lparr>last_swear_json := Some data\<rparr> in
                 case generate_swear_log data of
                   Inl e \<Rightarrow> (Some e, w1)
                 | Inr swear_msg \<Rightarrow>
                     if swear_msg \<noteq> [] then
                       (None, teq_message swear_msg ''engineering'' SKULL_EMOJI w1)
                     else (None, w1))
              else (None, w)))"

section \<open>The stream probe: \<^verbatim>\<open>stream.py\<close>\<close>

text \<open>
  What one HTTP request to the stream's page gives: the page with the text of its last
  \<^verbatim>\<open>streamdata\<close> cell (the tags already removed), the page without such a cell, or the
  \<^verbatim>\<open>URLError\<close> that \<^verbatim>\<open>ping_stream\<close> catches.
\<close>

datatype page = Streamdata string | NoStreamdata | UrlError

definition NO_DATA :: string where "NO_DATA = ''no data read from Icecast Server''"
definition URL_ERROR :: string where "URL_ERROR = ''HTTP Request Timeout''"

definition prep_message :: "string \<Rightarrow> string" where
  "prep_message cause =
     ''ALERT!! STREAM IS DOWN!!'' @ NL @ ''Likely cause: '' @ NL @
     (if cause = NO_DATA then
        ''No data read from Icecast server. '' @ NL
        @ ''This at least means the computer is on, ''
        @ ''and icecast is running, but the altacast ''
        @ ''encoders aren't hooked up properly. This ''
        @ ''most often happens when someone boots up ''
        @ ''multiple instances of altacast on the station ''
        @ ''computer. I would start with looking at that.''
      else if cause = URL_ERROR then
        ''HTTP Request Timeout. '' @ NL
        @ ''This could mean a multitude of things. ''
        @ ''Right off the bat, we know that icecast is ''
        @ ''acting off. This could be from the following ''
        @ ''problems: '' @ NL
        @ ''1) icecast has been closed on the computer'' @ NL
        @ ''2) multiple instances of icecast are running'' @ NL
        @ ''3) the station computer has lost internet access'' @ NL
        @ ''4) the station computer is rebooting'' @ NL
        @ ''5) the station computer is off, either from ''
        @ ''shutting down or from crashing.'' @ NL @ NL
        @ ''When diagnosing this issue, please check on AltaCast ''
        @ ''as well, because that could also possibly be down.'' @ NL
      else
        ''Unknown Error!!! '' @ NL
        @ ''This should have never happened. ''
        @ ''I have no idea what is wrong. I'm truly sorry.'' @ NL
        @ ''Just sit things out for a bit and and everything will ''
        @ ''be fine before long.'' @ NL)"

text \<open>\<^verbatim>\<open>stream.now_playing\<close> on the text of the last cell.\<close>

definition stream_now_playing :: "string \<Rightarrow> string" where
  "stream_now_playing data = ''#NowPlaying: '' @ data"

text \<open>\<^verbatim>\<open>stream.ping_stream(url)\<close>, with \<^verbatim>\<open>listeners\<close> at its default \<^verbatim>\<open>False\<close>.\<close>

definition ping_stream :: "page \<Rightarrow> bool \<times> string" where
  "ping_stream p =
     (case p of
        Streamdata data \<Rightarrow> (True, stream_now_playing data)
      | NoStreamdata \<Rightarrow> (False, prep_message NO_DATA)
      | UrlError \<Rightarrow> (False, prep_message URL_ERROR))"

definition get_now_playing :: "page \<Rightarrow> string" where
  "get_now_playing p = snd (ping_stream p)"

section \<open>Task bodies: \<^verbatim>\<open>teq.py\<close>\<close>

text \<open>
  \<^verbatim>\<open>str.replace(old, new)\<close> for a non-empty \<open>old\<close>: every occurrence, left to right, without
  overlap. The only call passes \<^verbatim>\<open>"__by__"\<close>.
\<close>

function replace :: "string \<Rightarrow> string \<Rightarrow> string \<Rightarrow> string" where
  "replace old new [] = []"
| "replace old new (c # cs) =
     (if old \<noteq> [] \<and> take (length old) (c # cs) = old
      then new @ replace old new (drop (length old) (c # cs))
      else c # replace old new cs)"
  by pat_completeness auto
termination
  by (relation "measure (\<lambda>(old, new, s). length s)") auto

definition now_playing :: "string \<Rightarrow> string" where
  "now_playing metadata = replace ''__by__'' ''by'' metadata"

text \<open>
  \<^verbatim>\<open>TeqBot.check_last_played\<close>: \<open>p\<close> is what the request made by \<^verbatim>\<open>get_now_playing\<close> gets.
  The result is the returned flag and the state left behind.
\<close>

definition check_last_played :: "page \<Rightarrow> world \<Rightarrow> bool \<times> world" where
  "check_last_played p w =
     (case song_file w of
        Some s \<Rightarrow>
          (let check = get_now_playing p;
               song = text_read s in
           if song = ''None'' then (True, set_last_played check (set_last_song check w))
           else if check \<noteq> song then (True, set_last_played check (set_last_song check w))
           else (False, w))
      | None \<Rightarrow> (False, w))"

text \<open>
  \<^verbatim>\<open>TeqBot.task_now_playing\<close>. The task asks the stream twice; the first answer is only
  printed, so \<open>p\<close> is the answer to the second request, the one inside
  \<^verbatim>\<open>check_last_played\<close>. The result is the exception that ended the task, if any, and the
  state the task left behind: the message is sent and the marker written before
  \<^verbatim>\<open>tunein\<close> is called.
\<close>

definition task_now_playing :: "page \<Rightarrow> world \<Rightarrow> exn option \<times> world" where
  "task_now_playing p w =
     (let w1 = get_last_played w;
          (newsong, w2) = check_last_played p w1
      in if newsong then
           tunein (lastSong w2)
             (teq_message (now_playing (lastSong w2)) ''nowplaying'' MUSIC_EMOJI w2)
         else (None, w2))"

text \<open>
  The probe loop of \<^verbatim>\<open>task_stream_status\<close>, \<^verbatim>\<open>for i in range(0, 5)\<close> with a \<^verbatim>\<open>break\<close> on
  the first request that finds the stream online: \<open>pages i\<close> is what request \<open>i\<close> gets and
  \<open>n\<close> the number of requests left after this one. The result is the last pair assigned
  to \<^verbatim>\<open>online, msg\<close>.
\<close>

fun ping_attempts :: "(nat \<Rightarrow> page) \<Rightarrow> nat \<Rightarrow> nat \<Rightarrow> bool \<times> string" where
  "ping_attempts pages i 0 = ping_stream (pages i)"
| "ping_attempts pages i (Suc n) =
     (let r = ping_stream (pages i) in
      if fst r then r else ping_attempts pages (Suc i) n)"

definition task_stream_status :: "(nat \<Rightarrow> page) \<Rightarrow> world \<Rightarrow> world" where
  "task_stream_status pages w =
     (let (online, msg) = ping_attempts pages 0 4 in
      if online then
        (if check_stat_file ''Stream Down'' w then
           teq_message ''The Stream is Back Online!'' ''engineering'' ROBOT_EMOJI
             (set_stat_file ''Running'' w)
         else w)
      else set_stat_file ''Stream Down'' (teq_message msg ''engineering'' SKULL_EMOJI w))"

section \<open>Bit strings\<close>

text \<open>
  The binary digits of a natural number without leading zeros, \<^verbatim>\<open>"0"\<close> for zero, and
  \<^verbatim>\<open>"{0:b}".format(n)\<close>, which puts a minus sign before the digits of a negative number.
\<close>

function bin_digits :: "nat \<Rightarrow> string" where
  "bin_digits n =
     (if n < 2 then [if n = 0 then CHR ''0'' else CHR ''1'']
      else bin_digits (n div 2) @ [if n mod 2 = 0 then CHR ''0'' else CHR ''1''])"
  by pat_completeness auto
termination
  by (relation "measure id") auto

declare bin_digits.simps [simp del]

definition format_b :: "int \<Rightarrow> string" where
  "format_b n = (if n < 0 then CHR ''-'' # bin_digits (nat (- n)) else bin_digits (nat n))"

text \<open>The digits of bases up to ten, which are the bases used here.\<close>

definition digit_of :: "nat \<Rightarrow> char \<Rightarrow> nat option" where
  "digit_of base c =
     (case map_of (zip ''0123456789'' [0, 1, 2, 3, 4, 5, 6, 7, 8, 9]) c of
        Some d \<Rightarrow> if d < base then Some d else None
      | None \<Rightarrow> None)"

text \<open>The value of a digit string given with its last digit first.\<close>

fun digits_val :: "nat \<Rightarrow> string \<Rightarrow> nat option" where
  "digits_val base [] = Some 0"
| "digits_val base (c # cs) =
     (case digit_of base c of
        None \<Rightarrow> None
      | Some d \<Rightarrow> (case digits_val base cs of None \<Rightarrow> None | Some v \<Rightarrow> Some (d + base * v)))"

text \<open>
  \<^verbatim>\<open>int(s, base)\<close> and \<^verbatim>\<open>int(s)\<close> (base 10) as Python reads a string: blanks at both ends are
  skipped (tab, line feed, vertical tab, form feed, carriage return, space); one sign may
  come first; in base 2 the prefix \<^verbatim>\<open>0b\<close> or \<^verbatim>\<open>0B\<close> may follow, and one underscore after it;
  then come the digits, at least one, with single underscores allowed between two digits.
  Anything else raises \<^verbatim>\<open>ValueError\<close>.
\<close>

definition is_space :: "char \<Rightarrow> bool" where
  "is_space c = (c \<in> set [CHR 0x09, CHR 0x0A, CHR 0x0B, CHR 0x0C, CHR 0x0D, CHR 0x20])"

definition strip :: "string \<Rightarrow> string" where
  "strip s = rev (dropWhile is_space (rev (dropWhile is_space s)))"

text \<open>The base prefix of a base 2 numeral, with the one underscore allowed after it.\<close>

fun drop_prefix :: "string \<Rightarrow> string" where
  "drop_prefix (c0 # c1 # rest) =
     (if c0 = CHR ''0'' \<and> (c1 = CHR ''b'' \<or> c1 = CHR ''B'')
      then (case rest of u # r \<Rightarrow> if u = CHR ''_'' then r else rest | [] \<Rightarrow> rest)
      else c0 # c1 # rest)"
| "drop_prefix s = s"

text \<open>
  The characters between the underscores: \<open>None\<close> for the empty string and for an
  underscore that is first, last or next to another one.
\<close>

fun digit_body :: "string \<Rightarrow> string option" where
  "digit_body [] = None"
| "digit_body [c] = (if c = CHR ''_'' then None else Some [c])"
| "digit_body (c # d # ds) =
     (if c = CHR ''_'' then None
      else if d = CHR ''_'' then (case digit_body ds of None \<Rightarrow> None | Some r \<Rightarrow> Some (c # r))
      else (case digit_body (d # ds) of None \<Rightarrow> None | Some r \<Rightarrow> Some (c # r)))"

definition unsigned_int :: "nat \<Rightarrow> string \<Rightarrow> nat option" where
  "unsigned_int base s =
     (case digit_body (if base = 2 then drop_prefix s else s) of
        None \<Rightarrow> None
      | Some ds \<Rightarrow> digits_val base (rev ds))"

definition py_int :: "nat \<Rightarrow> string \<Rightarrow> exn + int" where
  "py_int base s =
     (case strip s of
        [] \<Rightarrow> Inl ValueError
      | c # cs \<Rightarrow>
          if c = CHR ''-'' then
            (case unsigned_int base cs of None \<Rightarrow> Inl ValueError | Some v \<Rightarrow> Inr (- int v))
          else if c = CHR ''+'' then
            (case unsigned_int base cs of None \<Rightarrow> Inl ValueError | Some v \<Rightarrow> Inr (int v))
          else
            (case unsigned_int base (c # cs) of None \<Rightarrow> Inl ValueError | Some v \<Rightarrow> Inr (int v)))"

definition NOW_PLAYING :: string where "NOW_PLAYING = ''00000001''"
definition STREAM_STATUS :: string where "STREAM_STATUS = ''00000010''"
definition CHECK_LYRICS :: string where "CHECK_LYRICS = ''00000100''"
definition SWEAR_LOG :: string where "SWEAR_LOG = ''00001000''"
definition OPTION_5 :: string where "OPTION_5 = ''00010000''"
definition OPTION_6 :: string where "OPTION_6 = ''00100000''"
definition OPTION_7 :: string where "OPTION_7 = ''01000000''"
definition UPDATE_REPO :: string where "UPDATE_REPO = ''10000000''"

definition STANDARD_FREQUENCY :: int where "STANDARD_FREQUENCY = 5"

section \<open>The flag decoder: \<^verbatim>\<open>command_handler\<close>\<close>

text \<open>\<^verbatim>\<open>str.upper\<close> on ASCII text; other characters are left as they are.\<close>

definition upper_char :: "char \<Rightarrow> char" where
  "upper_char c =
     (case map_of (zip ''abcdefghijklmnopqrstuvwxyz'' ''ABCDEFGHIJKLMNOPQRSTUVWXYZ'') c of
        Some u \<Rightarrow> u
      | None \<Rightarrow> c)"

definition upper :: "string \<Rightarrow> string" where
  "upper s = map upper_char s"

text \<open>
  \<^verbatim>\<open>event = "{0:b}".format(int(event, 2) | int(FLAG, 2))\<close>, one step of the decoder.
\<close>

definition or_flag :: "string \<Rightarrow> string \<Rightarrow> exn + string" where
  "or_flag event flag =
     bind_exn (py_int 2 event) (\<lambda>e.
     bind_exn (py_int 2 flag) (\<lambda>f.
       Inr (format_b (or e f))))"

text \<open>One \<^verbatim>\<open>if "--long" in args or "-s" in args: event = ...\<close> statement.\<close>

definition decode_option :: "string list \<Rightarrow> string \<Rightarrow> string \<Rightarrow> string \<Rightarrow> string \<Rightarrow> exn + string"
  where
  "decode_option args long short flag event =
     (if long \<in> set args \<or> short \<in> set args then or_flag event flag else Inr event)"

text \<open>The five statements of the \<^verbatim>\<open>SCHEDULER\<close> branch, from \<^verbatim>\<open>event = '00000000'\<close> on.\<close>

definition decode_event :: "string list \<Rightarrow> exn + string" where
  "decode_event args =
     bind_exn (decode_option args ''--nowplaying'' ''-n'' NOW_PLAYING ''00000000'') (\<lambda>e1.
     bind_exn (decode_option args ''--status'' ''-s'' STREAM_STATUS e1) (\<lambda>e2.
     bind_exn (decode_option args ''--lyric'' ''-l'' CHECK_LYRICS e2) (\<lambda>e3.
     bind_exn (decode_option args ''--swear'' ''-w'' SWEAR_LOG e3) (\<lambda>e4.
       decode_option args ''--update'' ''-u'' UPDATE_REPO e4))))"

datatype task = NowPlaying | StreamStatus | CheckLyrics | SwearLog | UpdateRepo

text \<open>The \<^verbatim>\<open>if\<close>/\<^verbatim>\<open>elif\<close> chain of the \<^verbatim>\<open>TASK\<close> branch; \<open>None\<close> when no option is given.\<close>

definition decode_task :: "string list \<Rightarrow> task option" where
  "decode_task args =
     (if ''--nowplaying'' \<in> set args \<or> ''-n'' \<in> set args then Some NowPlaying
      else if ''--status'' \<in> set args \<or> ''-s'' \<in> set args then Some StreamStatus
      else if ''--lyric'' \<in> set args \<or> ''-l'' \<in> set args then Some CheckLyrics
      else if ''--swear'' \<in> set args \<or> ''-w'' \<in> set args then Some SwearLog
      else if ''--update'' \<in> set args \<or> ''-u'' \<in> set args then Some UpdateRepo
      else None)"

text \<open>
  What \<^verbatim>\<open>command_handler\<close> goes on to do: print the usage text, the \<^verbatim>\<open>MESSAGE\<close> branch
  (which only prints), delete the status file and call \<^verbatim>\<open>teq.scheduler(event)\<close>, run one
  task, write \<^verbatim>\<open>Done\<close> to the status file, or nothing.
\<close>

datatype action =
    Usage
  | Message
  | Scheduler string
  | Task "task option"
  | Kill
  | NoCommand

definition command_handler :: "string list \<Rightarrow> exn + action" where
  "command_handler args0 =
     (case args0 of
        [] \<Rightarrow> Inl IndexError
      | a # rest \<Rightarrow>
          (let args = upper a # rest in
           if ''USAGE'' \<in> set args then Inr Usage
           else if ''MESSAGE'' \<in> set args then Inr Message
           else if ''SCHEDULER'' \<in> set args then
             bind_exn (decode_event args) (\<lambda>event. Inr (Scheduler event))
           else if ''TASK'' \<in> set args then Inr (Task (decode_task args))
           else if ''KILL'' \<in> set args then Inr Kill
           else Inr NoCommand))"

section \<open>The tick loop: \<^verbatim>\<open>TeqBot.scheduler\<close>\<close>

text \<open>
  The local variables of \<^verbatim>\<open>scheduler\<close>: the five task flags computed from the event string
  and the five clocks.
\<close>

record sched =
  nowPlaying :: int
  streamStatus :: int
  updateRepo :: int
  checkLyrics :: int
  swearLog :: int
  nowPlayingClock :: int
  streamStatusClock :: int
  updateRepoClock :: int
  checkLyricsClock :: int
  swearLogClock :: int

text \<open>\<^verbatim>\<open>int("{0:b}".format(int(event, 2) & int(FLAG, 2)))\<close>: the last \<^verbatim>\<open>int\<close> reads base 10.\<close>

definition task_flag :: "string \<Rightarrow> string \<Rightarrow> exn + int" where
  "task_flag event flag =
     bind_exn (py_int 2 event) (\<lambda>e.
     bind_exn (py_int 2 flag) (\<lambda>f.
       py_int 10 (format_b (and e f))))"

text \<open>The start of \<^verbatim>\<open>scheduler\<close>, up to the loop: clocks at zero, flags in source order.\<close>

definition task_flags :: "string \<Rightarrow> exn + sched" where
  "task_flags event =
     bind_exn (task_flag event NOW_PLAYING) (\<lambda>np.
     bind_exn (task_flag event STREAM_STATUS) (\<lambda>ss.
     bind_exn (task_flag event UPDATE_REPO) (\<lambda>ur.
     bind_exn (task_flag event CHECK_LYRICS) (\<lambda>cl.
     bind_exn (task_flag event SWEAR_LOG) (\<lambda>sl.
       Inr \<lparr>nowPlaying = np, streamStatus = ss, updateRepo = ur, checkLyrics = cl,
            swearLog = sl, nowPlayingClock = 0, streamStatusClock = 0, updateRepoClock = 0,
            checkLyricsClock = 0, swearLogClock = 0\<rparr>)))))"

text \<open>
  The test \<^verbatim>\<open>flag and clock % divisor == 0\<close>: the remainder is only computed for a task
  whose flag is set, and a zero divisor raises.
\<close>

definition trigger :: "int \<Rightarrow> int \<Rightarrow> int \<Rightarrow> exn + bool" where
  "trigger flag clock divisor =
     (if flag \<noteq> 0 then
        (if divisor = 0 then Inl ZeroDivisionError else Inr (clock mod divisor = 0))
      else Inr False)"

text \<open>
  One \<^verbatim>\<open>if\<close> statement of the loop body up to the call of \<^verbatim>\<open>spawn_task\<close>. What
  \<^verbatim>\<open>spawn_task\<close> does with a command is given by \<open>spawn\<close>: \<open>None\<close> when
  \<^verbatim>\<open>shlex.split\<close> and \<^verbatim>\<open>subprocess.Popen\<close> return and the new process is started, and the
  exception when one of them raises. \<open>spawned\<close> holds the commands started earlier in the
  pass. The result is whether the task was started, with the commands started so far, or
  the exception with the commands started before it.
\<close>

definition fire ::
  "(string \<Rightarrow> exn option) \<Rightarrow> int \<Rightarrow> int \<Rightarrow> int \<Rightarrow> string \<Rightarrow> string list
     \<Rightarrow> (exn \<times> string list) + (bool \<times> string list)" where
  "fire spawn flag clock divisor command spawned =
     (case trigger flag clock divisor of
        Inl e \<Rightarrow> Inl (e, spawned)
      | Inr due \<Rightarrow>
          if due then
            (case spawn command of
               Some e \<Rightarrow> Inl (e, spawned)
             | None \<Rightarrow> Inr (True, spawned @ [command]))
          else Inr (False, spawned))"

text \<open>
  The five \<^verbatim>\<open>if\<close> statements of the loop body, in source order; a task that was started
  has its clock set to 1. The result is the commands started in this pass and the clocks
  after it, or the exception that ended the pass with the commands started before it.
\<close>

definition fire_tasks ::
  "(string \<Rightarrow> exn option) \<Rightarrow> string \<Rightarrow> int \<Rightarrow> sched
     \<Rightarrow> (exn \<times> string list) + (string list \<times> sched)" where
  "fire_tasks spawn python frequency s0 =
     bind_exn (fire spawn (nowPlaying s0) (nowPlayingClock s0) (frequency * 2)
                 (python @ '' teqbot task --nowplaying'') []) (\<lambda>(f1, c1).
     let s1 = (if f1 then s0\<lparr>nowPlayingClock := 1\<rparr> else s0) in
     bind_exn (fire spawn (streamStatus s1) (streamStatusClock s1) (frequency * 20)
                 (python @ '' teqbot task --status'') c1) (\<lambda>(f2, c2).
     let s2 = (if f2 then s1\<lparr>streamStatusClock := 1\<rparr> else s1) in
     bind_exn (fire spawn (checkLyrics s2) (checkLyricsClock s2) frequency
                 (python @ '' teqbot task --lyric'') c2) (\<lambda>(f3, c3).
     let s3 = (if f3 then s2\<lparr>checkLyricsClock := 1\<rparr> else s2) in
     bind_exn (fire spawn (swearLog s3) (swearLogClock s3) frequency
                 (python @ '' teqbot task --swear'') c3) (\<lambda>(f4, c4).
     let s4 = (if f4 then s3\<lparr>swearLogClock := 1\<rparr> else s3) in
     bind_exn (fire spawn (updateRepo s4) (updateRepoClock s4) (frequency * 1200)
                 (python @ '' teqbot task --update'') c4) (\<lambda>(f5, c5).
     let s5 = (if f5 then s4\<lparr>updateRepoClock := 1\<rparr> else s4) in
     Inr (c5, s5))))))"

text \<open>The five \<^verbatim>\<open>+= 1\<close> after \<^verbatim>\<open>time.sleep(1)\<close>.\<close>

definition advance :: "sched \<Rightarrow> sched" where
  "advance s =
     s\<lparr>nowPlayingClock := nowPlayingClock s + 1,
       streamStatusClock := streamStatusClock s + 1,
       updateRepoClock := updateRepoClock s + 1,
       checkLyricsClock := checkLyricsClock s + 1,
       swearLogClock := swearLogClock s + 1\<rparr>"

text \<open>
  How a run of the loop ends: it returned, or an exception ended it, or the passes allowed
  by the fuel were used up with the loop still going. Each carries the state of the files
  it leaves and the trace: for every pass made so far, the commands started in it.
\<close>

datatype outcome =
    Finished world "string list list"
  | Crashed exn world "string list list"
  | StillRunning world sched "string list list"

text \<open>
  The \<^verbatim>\<open>while True\<close> loop. The loop never writes a file before it ends, and within a pass
  it reads the files only in the test that follows the sleep; so everything the other
  processes (the spawned tasks, a \<^verbatim>\<open>kill\<close> command) do to the files between two such tests
  is one function: \<open>env t\<close> for the pass numbered \<open>t\<close>. The first argument bounds the number
  of passes.
\<close>

fun scheduler_loop ::
  "nat \<Rightarrow> (string \<Rightarrow> exn option) \<Rightarrow> string \<Rightarrow> int \<Rightarrow> (nat \<Rightarrow> world \<Rightarrow> world) \<Rightarrow> nat
     \<Rightarrow> sched \<Rightarrow> world \<Rightarrow> string list list \<Rightarrow> outcome" where
  "scheduler_loop 0 spawn python frequency env t s w trace = StillRunning w s trace"
| "scheduler_loop (Suc fuel) spawn python frequency env t s w trace =
     (case fire_tasks spawn python frequency s of
        Inl (e, spawned) \<Rightarrow> Crashed e w (trace @ [spawned])
      | Inr (spawned, s1) \<Rightarrow>
          (let w1 = env t w;
               s2 = advance s1
           in if check_stat_file ''Done'' w1
              then Finished (delete_stat_file w1) (trace @ [spawned])
              else scheduler_loop fuel spawn python frequency env (Suc t) s2 w1
                     (trace @ [spawned])))"

definition scheduler ::
  "nat \<Rightarrow> (string \<Rightarrow> exn option) \<Rightarrow> string \<Rightarrow> (nat \<Rightarrow> world \<Rightarrow> world) \<Rightarrow> string \<Rightarrow> int
     \<Rightarrow> world \<Rightarrow> outcome" where
  "scheduler fuel spawn python env event frequency w =
     (let w1 = get_last_played (set_stat_file ''Running'' (set_last_played ''None'' w)) in
      case task_flags event of
        Inl e \<Rightarrow> Crashed e w1 []
      | Inr s \<Rightarrow> scheduler_loop fuel spawn python frequency env 0 s w1 [])"

section \<open>Notions used in the statements\<close>

text \<open>A working directory without any of the files, and a bot that has sent nothing.\<close>

definition empty_world :: world where
  "empty_world =
     \<lparr>song_file = None, stat_file = None, lyric_file = None, swear_json = None,
      last_swear_json = None, lastSong = '''', slack = [], tunein_posts = []\<rparr>"

text \<open>
  A call of the stream-health task is a down call when none of its five requests finds the
  stream online, and an up call when one of them does.
\<close>

definition is_down :: "(nat \<Rightarrow> page) \<Rightarrow> bool" where
  "is_down pages = (\<forall>i<5. \<not> fst (ping_stream (pages i)))"

definition is_up :: "(nat \<Rightarrow> page) \<Rightarrow> bool" where
  "is_up pages = (\<exists>i<5. fst (ping_stream (pages i)))"

text \<open>
  A record is complete when each of the seven fields of a swear log entry is present and
  holds a string.
\<close>

definition str_valued :: "jrecord \<Rightarrow> string \<Rightarrow> bool" where
  "str_valued data f = (case map_of data f of Some (JStr s) \<Rightarrow> True | _ \<Rightarrow> False)"

definition complete_record :: "jrecord \<Rightarrow> bool" where
  "complete_record data = list_all (str_valued data) swear_fields"

text \<open>A complete swear log entry with the given report text, used as a concrete input.\<close>

definition full_record :: "string \<Rightarrow> jrecord" where
  "full_record report =
     [(''date'', JStr ''2024-03-01''), (''time'', JStr ''21:15''),
      (''song title'', JStr ''Song''), (''song artist'', JStr ''Band''),
      (''song composer'', JStr ''Writer''), (''show name'', JStr ''Night Show''),
      (''report'', JStr report)]"

subsection \<open>Task masks and tokens\<close>

definition all_tasks :: "task list" where
  "all_tasks = [NowPlaying, StreamStatus, CheckLyrics, SwearLog, UpdateRepo]"

text \<open>The two command-line tokens of a task and the value of its bit in the event.\<close>

fun long_token :: "task \<Rightarrow> string" where
  "long_token NowPlaying = ''--nowplaying''"
| "long_token StreamStatus = ''--status''"
| "long_token CheckLyrics = ''--lyric''"
| "long_token SwearLog = ''--swear''"
| "long_token UpdateRepo = ''--update''"

fun short_token :: "task \<Rightarrow> string" where
  "short_token NowPlaying = ''-n''"
| "short_token StreamStatus = ''-s''"
| "short_token CheckLyrics = ''-l''"
| "short_token SwearLog = ''-w''"
| "short_token UpdateRepo = ''-u''"

fun task_bit :: "task \<Rightarrow> int" where
  "task_bit NowPlaying = 1"
| "task_bit StreamStatus = 2"
| "task_bit CheckLyrics = 4"
| "task_bit SwearLog = 8"
| "task_bit UpdateRepo = 128"

text \<open>A task is requested by a list of arguments that holds one of its tokens.\<close>

definition requested :: "string list \<Rightarrow> task \<Rightarrow> bool" where
  "requested args t = (long_token t \<in> set args \<or> short_token t \<in> set args)"

text \<open>
  The mask of a set of task flags, as the specification describes it: the bitwise OR of
  the bits of the flags that are set. \<open>token_mask\<close> is the mask of the tasks that a list
  of tokens requests.
\<close>

definition mask_of :: "(task \<Rightarrow> bool) \<Rightarrow> int" where
  "mask_of S = foldl (\<lambda>m t. if S t then or m (task_bit t) else m) 0 all_tasks"

definition token_mask :: "string list \<Rightarrow> int" where
  "token_mask args = mask_of (requested args)"

definition is_task_token :: "string \<Rightarrow> bool" where
  "is_task_token s = (s \<in> set (map long_token all_tasks @ map short_token all_tasks))"

text \<open>
  The tokens that encode a mask: for every task whose bit is set in \<open>m\<close>, its short or
  its long token, as \<open>short\<close> chooses.
\<close>

definition encode_tokens :: "(task \<Rightarrow> bool) \<Rightarrow> int \<Rightarrow> string list" where
  "encode_tokens short m =
     concat (map (\<lambda>t. if and m (task_bit t) \<noteq> 0
                       then [if short t then short_token t else long_token t] else [])
                 all_tasks)"

subsection \<open>Runs of the tick loop\<close>

fun trace_of :: "outcome \<Rightarrow> string list list" where
  "trace_of (Finished w tr) = tr"
| "trace_of (Crashed e w tr) = tr"
| "trace_of (StillRunning w s tr) = tr"

fun crashed :: "outcome \<Rightarrow> bool" where
  "crashed (Crashed e w tr) = True"
| "crashed _ = False"

text \<open>
  The state of the files a run leaves, and whether the run was still going when the fuel
  ran out.
\<close>

fun files_of :: "outcome \<Rightarrow> world" where
  "files_of (Finished w tr) = w"
| "files_of (Crashed e w tr) = w"
| "files_of (StillRunning w s tr) = w"

fun still_running :: "outcome \<Rightarrow> bool" where
  "still_running (StillRunning w s tr) = True"
| "still_running _ = False"

text \<open>A system on which \<^verbatim>\<open>spawn_task\<close> starts every command.\<close>

definition starts :: "string \<Rightarrow> exn option" where
  "starts command = None"

text \<open>
  An environment in which, during the pass numbered \<open>n\<close>, a \<^verbatim>\<open>kill\<close> command writes
  \<^verbatim>\<open>Done\<close> and then a stream-health task that was spawned earlier, and whose requests get
  \<open>pages\<close>, comes to its end; nothing else touches the files.
\<close>

definition kill_then_status :: "nat \<Rightarrow> (nat \<Rightarrow> page) \<Rightarrow> nat \<Rightarrow> world \<Rightarrow> world" where
  "kill_then_status n pages t w =
     (if t = n then task_stream_status pages (set_stat_file ''Done'' w) else w)"

text \<open>A page whose last cell holds a track with a carriage return in it.\<close>

definition cr_page :: page where
  "cr_page = Streamdata (''Song'' @ [CHR 0x0D] @ '' __by__ Band'')"

definition flags_off :: "sched \<Rightarrow> bool" where
  "flags_off s = (nowPlaying s = 0 \<and> streamStatus s = 0 \<and> checkLyrics s = 0
                  \<and> swearLog s = 0 \<and> updateRepo s = 0)"

text \<open>
  The files as the test at the end of pass \<open>t + k\<close> finds them, when the pass numbered \<open>t\<close>
  starts from \<open>w\<close>.
\<close>

fun files_after :: "(nat \<Rightarrow> world \<Rightarrow> world) \<Rightarrow> nat \<Rightarrow> world \<Rightarrow> nat \<Rightarrow> world" where
  "files_after env t w 0 = env t w"
| "files_after env t w (Suc k) = files_after env (Suc t) (env t w) k"

text \<open>The files as \<^verbatim>\<open>scheduler\<close> seeds them before the loop.\<close>

definition seed :: "world \<Rightarrow> world" where
  "seed w = get_last_played (set_stat_file ''Running'' (set_last_played ''None'' w))"

text \<open>
  An environment in which nothing touches the files but a \<^verbatim>\<open>kill\<close> command, which writes
  \<^verbatim>\<open>Done\<close> during the pass numbered \<open>n\<close>.
\<close>

definition kill_at :: "nat \<Rightarrow> nat \<Rightarrow> world \<Rightarrow> world" where
  "kill_at n t w = (if t = n then set_stat_file ''Done'' w else w)"

text \<open>
  The command, the divisor, the flag and the clock of each task, as the five \<^verbatim>\<open>if\<close>
  statements of the loop body have them.
\<close>

fun command_of :: "string \<Rightarrow> task \<Rightarrow> string" where
  "command_of python NowPlaying = python @ '' teqbot task --nowplaying''"
| "command_of python StreamStatus = python @ '' teqbot task --status''"
| "command_of python CheckLyrics = python @ '' teqbot task --lyric''"
| "command_of python SwearLog = python @ '' teqbot task --swear''"
| "command_of python UpdateRepo = python @ '' teqbot task --update''"

fun divisor_of :: "int \<Rightarrow> task \<Rightarrow> int" where
  "divisor_of frequency NowPlaying = frequency * 2"
| "divisor_of frequency StreamStatus = frequency * 20"
| "divisor_of frequency CheckLyrics = frequency"
| "divisor_of frequency SwearLog = frequency"
| "divisor_of frequency UpdateRepo = frequency * 1200"

fun enabled :: "sched \<Rightarrow> task \<Rightarrow> bool" where
  "enabled s NowPlaying = (nowPlaying s \<noteq> 0)"
| "enabled s StreamStatus = (streamStatus s \<noteq> 0)"
| "enabled s CheckLyrics = (checkLyrics s \<noteq> 0)"
| "enabled s SwearLog = (swearLog s \<noteq> 0)"
| "enabled s UpdateRepo = (updateRepo s \<noteq> 0)"

fun clock_of :: "sched \<Rightarrow> task \<Rightarrow> int" where
  "clock_of s NowPlaying = nowPlayingClock s"
| "clock_of s StreamStatus = streamStatusClock s"
| "clock_of s CheckLyrics = checkLyricsClock s"
| "clock_of s SwearLog = swearLogClock s"
| "clock_of s UpdateRepo = updateRepoClock s"

text \<open>A task is due in a pass when its flag is set and its clock is a multiple of its divisor.\<close>

definition due :: "int \<Rightarrow> sched \<Rightarrow> task \<Rightarrow> bool" where
  "due frequency s t = (enabled s t \<and> clock_of s t mod divisor_of frequency t = 0)"

text \<open>
  The value the clock of an enabled task with divisor \<open>d \<ge> 2\<close> has at the start of pass
  \<open>n\<close>: zero in the first pass, and from then on it runs from 2 up to \<open>d\<close> and starts again
  at 2.
\<close>

definition clock_at :: "int \<Rightarrow> nat \<Rightarrow> int" where
  "clock_at d n = (case n of 0 \<Rightarrow> 0 | Suc m \<Rightarrow> 2 + int (m mod nat (d - 1)))"

section \<open>Properties of the state store\<close>

text \<open>
  C7, as the code has it. Reading the song marker or the lyric marker when its file is
  missing gives the empty string. The status file has no reader that returns a default:
  \<^verbatim>\<open>check_stat_file\<close> compares, and with the file missing the comparison is false for every
  value compared against, \<^verbatim>\<open>Running\<close> included.
\<close>

theorem missing_marker_defaults:
  "lastSong (get_last_played (w\<lparr>song_file := None\<rparr>)) = ''''
   \<and> get_last_lyric (w\<lparr>lyric_file := None\<rparr>) = ''''
   \<and> \<not> check_stat_file check (w\<lparr>stat_file := None\<rparr>)"
  by (simp add: get_last_played_def get_last_lyric_def check_stat_file_def)

text \<open>
  With no status file the comparison against \<^verbatim>\<open>Running\<close> fails, and reading the swear
  snapshot when its file is missing raises.
\<close>

theorem absent_stat_file_is_not_Running:
  "\<not> check_stat_file ''Running'' empty_world
   \<and> read_json ''lastSwear.json'' (last_swear_json empty_world)
       = Inl (FileNotFoundError ''lastSwear.json'')"
  by (simp add: check_stat_file_def empty_world_def read_json_def)

section \<open>Properties of the song-change task\<close>

lemma text_read_without_CR: "CHR 0x0D \<notin> set s \<Longrightarrow> text_read s = s"
  by (induction s rule: text_read.induct) auto

lemma get_now_playing_not_None: "get_now_playing p \<noteq> ''None''"
  by (cases p) (simp_all add: get_now_playing_def ping_stream_def stream_now_playing_def
      prep_message_def)

lemma get_now_playing_not_empty: "get_now_playing p \<noteq> ''''"
  by (cases p) (simp_all add: get_now_playing_def ping_stream_def stream_now_playing_def
      prep_message_def)

lemma tunein_state:
  "slack (snd (tunein m w)) = slack w" "song_file (snd (tunein m w)) = song_file w"
  "tunein_posts (snd (tunein m w))
     = (if has_infix ''__by__'' m then tunein_posts w @ [m] else tunein_posts w)"
  "fst (tunein m w) = (if has_infix ''__by__'' m then None else Some TypeError)"
  by (simp_all add: tunein_def)

text \<open>The task reads the marker before anything else, so the old \<open>lastSong\<close> is of no account.\<close>

lemma task_now_playing_lastSong: "task_now_playing p (w\<lparr>lastSong := x\<rparr>) = task_now_playing p w"
  by (simp add: task_now_playing_def get_last_played_def split: option.splits)

lemma task_now_playing_sentinel:
  "task_now_playing p (w\<lparr>song_file := Some ''None''\<rparr>) =
     tunein (get_now_playing p)
       (w\<lparr>song_file := Some (get_now_playing p), lastSong := get_now_playing p,
          slack := slack w @ [(now_playing (get_now_playing p), ''nowplaying'', MUSIC_EMOJI)]\<rparr>)"
  by (simp add: task_now_playing_def get_last_played_def check_last_played_def Let_def
      set_last_played_def set_last_song_def teq_message_def tunein_def)

lemma task_now_playing_empty_marker:
  "task_now_playing p (w\<lparr>song_file := Some ''''\<rparr>) =
     tunein (get_now_playing p)
       (w\<lparr>song_file := Some (get_now_playing p), lastSong := get_now_playing p,
          slack := slack w @ [(now_playing (get_now_playing p), ''nowplaying'', MUSIC_EMOJI)]\<rparr>)"
  by (simp add: task_now_playing_def get_last_played_def check_last_played_def Let_def
      set_last_played_def set_last_song_def teq_message_def tunein_def
      get_now_playing_not_empty)

lemma task_now_playing_same_track:
  "song_file w = Some (get_now_playing p) \<Longrightarrow> CHR 0x0D \<notin> set (get_now_playing p)
   \<Longrightarrow> task_now_playing p w = (None, w\<lparr>lastSong := get_now_playing p\<rparr>)"
  by (simp add: task_now_playing_def get_last_played_def check_last_played_def Let_def
      get_now_playing_not_None text_read_without_CR)

lemma task_now_playing_repeat:
  assumes "song_file w = Some (get_now_playing p)" "CHR 0x0D \<notin> set (get_now_playing p)"
  shows "song_file (((\<lambda>w. snd (task_now_playing p w)) ^^ n) w) = Some (get_now_playing p)
     \<and> slack (((\<lambda>w. snd (task_now_playing p w)) ^^ n) w) = slack w
     \<and> tunein_posts (((\<lambda>w. snd (task_now_playing p w)) ^^ n) w) = tunein_posts w"
  using assms by (induction n) (simp_all add: task_now_playing_same_track)

text \<open>
  For a track without a carriage return: whatever else the stream answers (\<open>p\<close>), a run
  of the song-change task that finds the marker \<^verbatim>\<open>None\<close> sends one message to the
  \<^verbatim>\<open>nowplaying\<close> channel and stores the track in the marker; it publishes the track once when
  the track holds the separator \<^verbatim>\<open>__by__\<close>, and ends with \<^verbatim>\<open>TypeError\<close>, after the message
  and the marker, when it does not. Any number \<open>n\<close> of further runs that get the same
  answer from the stream send and publish nothing, leave the marker as it is and raise
  nothing.
\<close>

lemma forced_first_run_without_CR:
  assumes "CHR 0x0D \<notin> set (get_now_playing p)"
  shows "let r1 = task_now_playing p (w\<lparr>song_file := Some ''None''\<rparr>);
       w1 = snd r1;
       wn = ((\<lambda>w. snd (task_now_playing p w)) ^^ n) w1
   in slack w1 = slack w @ [(now_playing (get_now_playing p), ''nowplaying'', MUSIC_EMOJI)]
    \<and> song_file w1 = Some (get_now_playing p)
    \<and> tunein_posts w1 = (if has_infix ''__by__'' (get_now_playing p)
                          then tunein_posts w @ [get_now_playing p] else tunein_posts w)
    \<and> fst r1 = (if has_infix ''__by__'' (get_now_playing p) then None else Some TypeError)
    \<and> slack wn = slack w1
    \<and> tunein_posts wn = tunein_posts w1
    \<and> song_file wn = Some (get_now_playing p)
    \<and> fst (task_now_playing p wn) = None"
proof -
  define w1 where "w1 = snd (task_now_playing p (w\<lparr>song_file := Some ''None''\<rparr>))"
  define wn where "wn = ((\<lambda>w. snd (task_now_playing p w)) ^^ n) w1"
  have first:
    "slack w1 = slack w @ [(now_playing (get_now_playing p), ''nowplaying'', MUSIC_EMOJI)]"
    "song_file w1 = Some (get_now_playing p)"
    "tunein_posts w1 = (if has_infix ''__by__'' (get_now_playing p)
                          then tunein_posts w @ [get_now_playing p] else tunein_posts w)"
    "fst (task_now_playing p (w\<lparr>song_file := Some ''None''\<rparr>))
       = (if has_infix ''__by__'' (get_now_playing p) then None else Some TypeError)"
    by (simp_all add: w1_def task_now_playing_sentinel tunein_state)
  note later = task_now_playing_repeat [OF first(2) assms, of n, folded wn_def]
  have "fst (task_now_playing p wn) = None"
    using later assms by (simp add: task_now_playing_same_track)
  with first later show ?thesis
    by (simp add: Let_def w1_def [symmetric] wn_def [symmetric])
qed

text \<open>
  C5 at a track that holds a carriage return, \<^verbatim>\<open>Song\r __by__ Band\<close>, with the marker
  \<^verbatim>\<open>None\<close> and nothing sent before. The first run sends one message and stores the track.
  The second run, with the stream answering the same, reads the marker back with a line
  feed in the place of the carriage return, takes the track for a new one, and sends the
  message and publishes the track again.
\<close>

theorem track_with_carriage_return_notifies_again:
  "slack (snd (task_now_playing cr_page (empty_world\<lparr>song_file := Some ''None''\<rparr>)))
     = [(''#NowPlaying: Song'' @ [CHR 0x0D] @ '' by Band'', ''nowplaying'', MUSIC_EMOJI)]
   \<and> song_file (snd (task_now_playing cr_page (empty_world\<lparr>song_file := Some ''None''\<rparr>)))
     = Some (get_now_playing cr_page)
   \<and> slack (snd (task_now_playing cr_page
        (snd (task_now_playing cr_page (empty_world\<lparr>song_file := Some ''None''\<rparr>)))))
     = [(''#NowPlaying: Song'' @ [CHR 0x0D] @ '' by Band'', ''nowplaying'', MUSIC_EMOJI),
        (''#NowPlaying: Song'' @ [CHR 0x0D] @ '' by Band'', ''nowplaying'', MUSIC_EMOJI)]
   \<and> tunein_posts (snd (task_now_playing cr_page
        (snd (task_now_playing cr_page (empty_world\<lparr>song_file := Some ''None''\<rparr>)))))
     = [get_now_playing cr_page, get_now_playing cr_page]"
  by (simp add: task_now_playing_def get_last_played_def check_last_played_def Let_def
      set_last_played_def set_last_song_def teq_message_def tunein_def empty_world_def
      cr_page_def get_now_playing_def ping_stream_def stream_now_playing_def now_playing_def)

text \<open>
  C10. When the marker file does not exist, a run of the song-change task sends nothing,
  publishes nothing, creates no marker file and raises nothing, whatever the stream
  answers: the files and the two logs are left as they were. A marker holding \<^verbatim>\<open>None\<close> and
  a marker holding the empty string both make the same run notify.
\<close>

theorem now_playing_without_marker_is_noop:
  "task_now_playing p (w\<lparr>song_file := None\<rparr>)
     = (None, w\<lparr>song_file := None, lastSong := ''''\<rparr>)
   \<and> slack (snd (task_now_playing p (w\<lparr>song_file := Some ''None''\<rparr>)))
       = slack w @ [(now_playing (get_now_playing p), ''nowplaying'', MUSIC_EMOJI)]
   \<and> slack (snd (task_now_playing p (w\<lparr>song_file := Some ''''\<rparr>)))
       = slack w @ [(now_playing (get_now_playing p), ''nowplaying'', MUSIC_EMOJI)]"
  by (simp add: task_now_playing_sentinel task_now_playing_empty_marker tunein_state)
     (simp add: task_now_playing_def get_last_played_def check_last_played_def)

section \<open>Properties of the stream-health task\<close>

lemma ping_attempts_down:
  "(\<forall>j. i \<le> j \<and> j \<le> i + n \<longrightarrow> \<not> fst (ping_stream (pages j)))
   \<Longrightarrow> ping_attempts pages i n = ping_stream (pages (i + n))"
proof (induction n arbitrary: i)
  case 0
  then show ?case by simp
next
  case (Suc n)
  have "\<not> fst (ping_stream (pages i))" using Suc.prems by simp
  moreover have "ping_attempts pages (Suc i) n = ping_stream (pages (Suc i + n))"
    using Suc.prems by (intro Suc.IH) auto
  ultimately show ?case by (simp add: Let_def)
qed

lemma ping_attempts_up:
  "i \<le> j \<Longrightarrow> j \<le> i + n \<Longrightarrow> fst (ping_stream (pages j)) \<Longrightarrow> fst (ping_attempts pages i n)"
proof (induction n arbitrary: i)
  case 0
  then show ?case by simp
next
  case (Suc n)
  show ?case
  proof (cases "fst (ping_stream (pages i))")
    case True
    then show ?thesis by (simp add: Let_def)
  next
    case False
    then have "i \<noteq> j" using Suc.prems by auto
    then have "fst (ping_attempts pages (Suc i) n)"
      using Suc.prems by (intro Suc.IH) auto
    then show ?thesis using False by (simp add: Let_def)
  qed
qed

lemma task_stream_status_down:
  assumes "is_down pages"
  shows "task_stream_status pages w =
     w\<lparr>slack := slack w @ [(snd (ping_stream (pages 4)), ''engineering'', SKULL_EMOJI)],
       stat_file := Some ''Stream Down''\<rparr>"
proof -
  have "ping_attempts pages 0 4 = ping_stream (pages (0 + 4))"
    using assms by (intro ping_attempts_down) (auto simp: is_down_def)
  moreover have "\<not> fst (ping_stream (pages 4))" using assms by (simp add: is_down_def)
  ultimately show ?thesis
    by (simp add: task_stream_status_def case_prod_beta teq_message_def set_stat_file_def)
qed

lemma task_stream_status_up:
  assumes "is_up pages"
  shows "task_stream_status pages w =
     (if check_stat_file ''Stream Down'' w
      then w\<lparr>stat_file := Some ''Running'',
             slack := slack w @ [(''The Stream is Back Online!'', ''engineering'', ROBOT_EMOJI)]\<rparr>
      else w)"
proof -
  obtain j where "j < 5" "fst (ping_stream (pages j))" using assms by (auto simp: is_up_def)
  then have "fst (ping_attempts pages 0 4)" by (intro ping_attempts_up[of 0 j]) auto
  then show ?thesis
    by (simp add: task_stream_status_def case_prod_beta teq_message_def set_stat_file_def)
qed

text \<open>
  C4. Five calls of the stream-health task in a row, nothing else writing the status file
  in between: three down calls, then two up calls. Each down call sends the diagnostic of
  its last request to the \<^verbatim>\<open>engineering\<close> channel and leaves the status \<^verbatim>\<open>Stream Down\<close>; the
  first up call sends the one back-online message and leaves the status \<^verbatim>\<open>Running\<close>; the
  second up call sends nothing.
\<close>

theorem incident_dedup:
  assumes "is_down d1" "is_down d2" "is_down d3" "is_up u1" "is_up u2"
  shows "let w1 = task_stream_status d1 w;
             w2 = task_stream_status d2 w1;
             w3 = task_stream_status d3 w2;
             w4 = task_stream_status u1 w3;
             w5 = task_stream_status u2 w4
         in slack w1 = slack w @ [(snd (ping_stream (d1 4)), ''engineering'', SKULL_EMOJI)]
          \<and> stat_file w1 = Some ''Stream Down''
          \<and> slack w2 = slack w1 @ [(snd (ping_stream (d2 4)), ''engineering'', SKULL_EMOJI)]
          \<and> stat_file w2 = Some ''Stream Down''
          \<and> slack w3 = slack w2 @ [(snd (ping_stream (d3 4)), ''engineering'', SKULL_EMOJI)]
          \<and> stat_file w3 = Some ''Stream Down''
          \<and> slack w4 = slack w3 @ [(''The Stream is Back Online!'', ''engineering'', ROBOT_EMOJI)]
          \<and> stat_file w4 = Some ''Running''
          \<and> slack w5 = slack w4
          \<and> stat_file w5 = Some ''Running''"
  using assms
  by (simp add: task_stream_status_down task_stream_status_up Let_def check_stat_file_def)

theorem incident_dedup_witness:
  "is_down (\<lambda>i. UrlError)
   \<and> is_up (\<lambda>i. if i = 2 then Streamdata ''Beat Market __by__ Sun Machine'' else NoStreamdata)
   \<and> (let d = (\<lambda>i. UrlError);
           u = (\<lambda>i. if i = 2 then Streamdata ''Beat Market __by__ Sun Machine'' else NoStreamdata);
           w5 = task_stream_status u (task_stream_status u (task_stream_status d
                  (task_stream_status d (task_stream_status d empty_world))))
       in slack w5 = [(prep_message URL_ERROR, ''engineering'', SKULL_EMOJI),
                      (prep_message URL_ERROR, ''engineering'', SKULL_EMOJI),
                      (prep_message URL_ERROR, ''engineering'', SKULL_EMOJI),
                      (''The Stream is Back Online!'', ''engineering'', ROBOT_EMOJI)]
        \<and> stat_file w5 = Some ''Running'')"
proof -
  have d: "is_down (\<lambda>i. UrlError)"
    by (simp add: is_down_def ping_stream_def)
  have u: "is_up (\<lambda>i. if i = 2 then Streamdata ''Beat Market __by__ Sun Machine'' else NoStreamdata)"
    unfolding is_up_def by (rule exI [of _ 2]) (simp add: ping_stream_def)
  show ?thesis
    using d u incident_dedup [OF d d d u u, of empty_world]
    by (simp add: Let_def ping_stream_def empty_world_def)
qed

section \<open>Properties of the swear log relay\<close>

lemma py_eq_refl: "py_eq v v"
  by (cases v) simp_all

lemma compare_items_iff:
  "compare_items a b = (\<forall>(k, v) \<in> set a. \<exists>v2. map_of b k = Some v2 \<and> py_eq v v2)"
  by (induction a b rule: compare_items.induct) (auto split: option.splits)

lemma compare_items_same_map:
  assumes "distinct (map fst a)" "map_of a = map_of b"
  shows "compare_items a b"
  unfolding compare_items_iff
proof clarify
  fix k v assume "(k, v) \<in> set a"
  then have "map_of a k = Some v" using assms(1) by simp
  then have "map_of b k = Some v" using assms(2) by simp
  then show "\<exists>v2. map_of b k = Some v2 \<and> py_eq v v2" by (simp add: py_eq_refl)
qed

lemma compare_json_same_map:
  "distinct (map fst a) \<Longrightarrow> distinct (map fst b) \<Longrightarrow> map_of a = map_of b \<Longrightarrow> compare_json a b"
  by (simp add: compare_json_def compare_items_same_map)

lemma compare_json_differs:
  assumes "map_of a k = Some v" "map_of b k = Some v'" "\<not> py_eq v v'"
  shows "\<not> compare_json a b"
proof -
  have "(k, v) \<in> set a" using assms(1) by (rule map_of_SomeD)
  then have "\<not> compare_items a b"
    using assms(2,3) unfolding compare_items_iff by (intro notI) (drule (1) bspec, simp)
  then show ?thesis by (simp add: compare_json_def)
qed

text \<open>\<^verbatim>\<open>validate\<close> looks at the first field of its list only.\<close>

lemma validate_checks_date_only: "validate data LOG_SWEAR = (map_of data ''date'' \<noteq> None)"
  by (simp add: validate_def swear_fields_def)

lemma str_item_valued: "str_valued data f \<Longrightarrow> \<exists>s. str_item data f = Inr s"
  by (auto simp: str_valued_def str_item_def split: option.splits jval.splits)

lemma generate_swear_log_complete:
  assumes "complete_record data"
  shows "\<exists>msg. generate_swear_log data = Inr msg \<and> msg \<noteq> []"
proof -
  have f: "str_valued data ''date''" "str_valued data ''time''" "str_valued data ''song title''"
    "str_valued data ''song artist''" "str_valued data ''song composer''"
    "str_valued data ''show name''" "str_valued data ''report''"
    using assms by (simp_all add: complete_record_def swear_fields_def)
  have v: "validate data LOG_SWEAR"
    using f(1) by (auto simp: validate_checks_date_only str_valued_def split: option.splits)
  from f [THEN str_item_valued] v show ?thesis
    by (auto simp: generate_swear_log_def bind_exn_def)
qed

lemma generate_swear_log_without_date:
  "map_of data ''date'' = None \<Longrightarrow> generate_swear_log data = Inr ''''"
  by (simp add: generate_swear_log_def validate_checks_date_only)

text \<open>
  A record without the \<^verbatim>\<open>date\<close> field is relayed to nobody and ends the task normally; the
  snapshot is overwritten with it all the same when it differs from the snapshot.
\<close>

lemma task_swear_log_without_date:
  "map_of data ''date'' = None \<Longrightarrow>
   task_swear_log (w\<lparr>swear_json := Some data, last_swear_json := Some snap\<rparr>)
     = (None, if compare_json data snap
              then w\<lparr>swear_json := Some data, last_swear_json := Some snap\<rparr>
              else w\<lparr>swear_json := Some data, last_swear_json := Some data\<rparr>)"
  by (simp add: task_swear_log_def read_json_def generate_swear_log_without_date)

text \<open>
  C3 at a record that has every required field but \<^verbatim>\<open>report\<close>, with an empty snapshot:
  \<^verbatim>\<open>validate\<close> accepts the record, and the task ends with \<^verbatim>\<open>KeyError\<close> after it has
  overwritten the snapshot and before it sends anything.
\<close>

theorem record_without_report_crashes:
  "validate (butlast (full_record ''x'')) LOG_SWEAR
   \<and> task_swear_log (empty_world\<lparr>swear_json := Some (butlast (full_record ''x'')),
                                 last_swear_json := Some []\<rparr>)
      = (Some (KeyError ''report''),
         empty_world\<lparr>swear_json := Some (butlast (full_record ''x'')),
                     last_swear_json := Some (butlast (full_record ''x''))\<rparr>)"
  by (simp add: task_swear_log_def read_json_def compare_json_def generate_swear_log_def
      validate_def swear_fields_def LOG_SWEAR_def empty_world_def full_record_def
      bind_exn_def str_item_def)

text \<open>
  C8, as the code has it. Two records with distinct keys that are the same map from keys
  to values, in whatever order, make the task do nothing: no relay, no write. A new record
  that is complete and holds, under some key, a value that Python's \<^verbatim>\<open>==\<close> tells apart from
  the snapshot's value under that key is relayed once, as the non-empty text that
  \<^verbatim>\<open>generate_swear_log\<close> gives, and the snapshot becomes the new record.
\<close>

theorem swear_log_relay:
  "(distinct (map fst a) \<and> distinct (map fst b) \<and> map_of a = map_of b
      \<longrightarrow> task_swear_log (w\<lparr>swear_json := Some a, last_swear_json := Some b\<rparr>)
           = (None, w\<lparr>swear_json := Some a, last_swear_json := Some b\<rparr>))
   \<and> (complete_record data \<and> map_of data k = Some v \<and> map_of snap k = Some v' \<and> \<not> py_eq v v'
      \<longrightarrow> (\<exists>msg. generate_swear_log data = Inr msg \<and> msg \<noteq> []
             \<and> task_swear_log (w\<lparr>swear_json := Some data, last_swear_json := Some snap\<rparr>)
                = (None, w\<lparr>swear_json := Some data, last_swear_json := Some data,
                           slack := slack w @ [(msg, ''engineering'', SKULL_EMOJI)]\<rparr>)))"
proof (intro conjI impI)
  assume "distinct (map fst a) \<and> distinct (map fst b) \<and> map_of a = map_of b"
  then have "compare_json a b" by (simp add: compare_json_same_map)
  then show "task_swear_log (w\<lparr>swear_json := Some a, last_swear_json := Some b\<rparr>)
           = (None, w\<lparr>swear_json := Some a, last_swear_json := Some b\<rparr>)"
    by (simp add: task_swear_log_def read_json_def)
next
  assume h: "complete_record data \<and> map_of data k = Some v \<and> map_of snap k = Some v'
             \<and> \<not> py_eq v v'"
  then have ne: "\<not> compare_json data snap"
    using compare_json_differs [of data k v snap v'] by simp
  from h obtain msg where m: "generate_swear_log data = Inr msg" "msg \<noteq> []"
    using generate_swear_log_complete by blast
  then have "task_swear_log (w\<lparr>swear_json := Some data, last_swear_json := Some snap\<rparr>)
                = (None, w\<lparr>swear_json := Some data, last_swear_json := Some data,
                           slack := slack w @ [(msg, ''engineering'', SKULL_EMOJI)]\<rparr>)"
    using ne by (simp add: task_swear_log_def read_json_def teq_message_def)
  with m show "\<exists>msg. generate_swear_log data = Inr msg \<and> msg \<noteq> []
             \<and> task_swear_log (w\<lparr>swear_json := Some data, last_swear_json := Some snap\<rparr>)
                = (None, w\<lparr>swear_json := Some data, last_swear_json := Some data,
                           slack := slack w @ [(msg, ''engineering'', SKULL_EMOJI)]\<rparr>)"
    by blast
qed

theorem swear_log_relay_witness:
  "distinct (map fst (full_record ''x'')) \<and> distinct (map fst (rev (full_record ''x'')))
   \<and> map_of (full_record ''x'') = map_of (rev (full_record ''x''))
   \<and> task_swear_log (empty_world\<lparr>swear_json := Some (full_record ''x''),
                                 last_swear_json := Some (rev (full_record ''x''))\<rparr>)
       = (None, empty_world\<lparr>swear_json := Some (full_record ''x''),
                            last_swear_json := Some (rev (full_record ''x''))\<rparr>)
   \<and> complete_record (full_record ''y'')
   \<and> map_of (full_record ''y'') ''report'' = Some (JStr ''y'')
   \<and> map_of (full_record ''x'') ''report'' = Some (JStr ''x'')
   \<and> \<not> py_eq (JStr ''y'') (JStr ''x'')
   \<and> length (slack (snd (task_swear_log (empty_world\<lparr>swear_json := Some (full_record ''y''),
         last_swear_json := Some (full_record ''x'')\<rparr>)))) = 1
   \<and> last_swear_json (snd (task_swear_log (empty_world\<lparr>swear_json := Some (full_record ''y''),
         last_swear_json := Some (full_record ''x'')\<rparr>))) = Some (full_record ''y'')"
proof -
  have d: "distinct (map fst (full_record ''x'')) \<and> distinct (map fst (rev (full_record ''x'')))
     \<and> map_of (full_record ''x'') = map_of (rev (full_record ''x''))"
    by (auto simp: full_record_def fun_eq_iff)
  have c: "complete_record (full_record ''y'')
     \<and> map_of (full_record ''y'') ''report'' = Some (JStr ''y'')
     \<and> map_of (full_record ''x'') ''report'' = Some (JStr ''x'')
     \<and> \<not> py_eq (JStr ''y'') (JStr ''x'')"
    by (simp add: complete_record_def full_record_def swear_fields_def str_valued_def)
  show ?thesis
    using d c swear_log_relay [of "full_record ''x''" "rev (full_record ''x'')" empty_world
        "full_record ''y''" "''report''" "JStr ''y''" "full_record ''x''" "JStr ''x''"]
    by (auto simp: empty_world_def)
qed

text \<open>
  Two new records that differ from the snapshot in one field value and are not relayed. The
  first lacks the \<^verbatim>\<open>date\<close> field: the snapshot is overwritten and nothing is sent. The
  second is complete and has one more field, whose value went from \<^verbatim>\<open>1\<close> to \<^verbatim>\<open>true\<close>: Python
  holds the two equal, so nothing is written and nothing is sent.
\<close>

theorem changed_record_not_relayed:
  "task_swear_log (empty_world\<lparr>swear_json := Some [(''note'', JStr ''b'')],
                               last_swear_json := Some [(''note'', JStr ''a'')]\<rparr>)
    = (None, empty_world\<lparr>swear_json := Some [(''note'', JStr ''b'')],
                          last_swear_json := Some [(''note'', JStr ''b'')]\<rparr>)
   \<and> slack empty_world = []
   \<and> task_swear_log
       (empty_world\<lparr>swear_json := Some (full_record ''x'' @ [(''flagged'', JBool True)]),
                    last_swear_json := Some (full_record ''x'' @ [(''flagged'', JNum 1)])\<rparr>)
    = (None,
       empty_world\<lparr>swear_json := Some (full_record ''x'' @ [(''flagged'', JBool True)]),
                   last_swear_json := Some (full_record ''x'' @ [(''flagged'', JNum 1)])\<rparr>)"
  by (simp add: task_swear_log_def read_json_def compare_json_def generate_swear_log_def
      validate_def swear_fields_def LOG_SWEAR_def empty_world_def full_record_def)

section \<open>Properties of the bit strings\<close>

lemma bin_digits_nonempty: "bin_digits n \<noteq> []"
  by (subst bin_digits.simps) simp

lemma bin_digits_chars: "set (bin_digits n) \<subseteq> {CHR ''0'', CHR ''1''}"
proof (induction n rule: bin_digits.induct)
  case (1 n)
  show ?case
  proof (cases "n < 2")
    case True
    then show ?thesis by (subst bin_digits.simps) simp
  next
    case False
    with 1 have "set (bin_digits (n div 2)) \<subseteq> {CHR ''0'', CHR ''1''}" by simp
    with False show ?thesis by (subst bin_digits.simps) auto
  qed
qed

lemma digit_of_bits:
  "digit_of 2 (CHR ''0'') = Some 0" "digit_of 2 (CHR ''1'') = Some 1"
  "digit_of 10 (CHR ''0'') = Some 0" "digit_of 10 (CHR ''1'') = Some 1"
  by (simp_all add: digit_of_def)

lemma digits_val_bin_digits: "digits_val 2 (rev (bin_digits n)) = Some n"
proof (induction n rule: bin_digits.induct)
  case (1 n)
  show ?case
  proof (cases "n < 2")
    case True
    then have "n = 0 \<or> n = 1" by auto
    then show ?thesis by (subst bin_digits.simps) (auto simp: digit_of_bits)
  next
    case False
    with 1 have "digits_val 2 (rev (bin_digits (n div 2))) = Some (n div 2)" by simp
    moreover have "n mod 2 = 1 \<Longrightarrow> Suc (2 * (n div 2)) = n" by presburger
    moreover have "n mod 2 = 0 \<Longrightarrow> 2 * (n div 2) = n" by presburger
    ultimately show ?thesis using False
      by (subst bin_digits.simps) (auto simp: digit_of_bits)
  qed
qed

lemma digits_val10_bin_digits:
  "\<exists>k. digits_val 10 (rev (bin_digits n)) = Some k \<and> (k = 0 \<longleftrightarrow> n = 0)"
proof (induction n rule: bin_digits.induct)
  case (1 n)
  show ?case
  proof (cases "n < 2")
    case True
    then have "n = 0 \<or> n = 1" by auto
    then show ?thesis by (subst bin_digits.simps) (auto simp: digit_of_bits)
  next
    case False
    with 1 obtain k where "digits_val 10 (rev (bin_digits (n div 2))) = Some k"
      "k = 0 \<longleftrightarrow> n div 2 = 0" by auto
    with False show ?thesis
      by (subst bin_digits.simps) (auto simp: digit_of_bits)
  qed
qed

lemma digit_body_plain: "s \<noteq> [] \<Longrightarrow> CHR ''_'' \<notin> set s \<Longrightarrow> digit_body s = Some s"
  by (induction s rule: digit_body.induct) auto

lemma drop_prefix_plain: "CHR ''b'' \<notin> set s \<Longrightarrow> CHR ''B'' \<notin> set s \<Longrightarrow> drop_prefix s = s"
  by (cases s rule: drop_prefix.cases) auto

lemma unsigned_int_bin_digits:
  assumes "base = 2 \<or> base = 10"
  shows "unsigned_int base (bin_digits n) = digits_val base (rev (bin_digits n))"
proof -
  have "CHR ''_'' \<notin> set (bin_digits n)" "CHR ''b'' \<notin> set (bin_digits n)"
    "CHR ''B'' \<notin> set (bin_digits n)"
    using bin_digits_chars [of n] by auto
  then have "digit_body (bin_digits n) = Some (bin_digits n)"
    "drop_prefix (bin_digits n) = bin_digits n"
    using bin_digits_nonempty [of n] by (simp_all add: digit_body_plain drop_prefix_plain)
  then show ?thesis by (simp add: unsigned_int_def)
qed

lemma dropWhile_hd: "s \<noteq> [] \<Longrightarrow> \<not> P (hd s) \<Longrightarrow> dropWhile P s = s"
  by (cases s) simp_all

lemma strip_plain:
  assumes "s \<noteq> []" "\<not> is_space (hd s)" "\<not> is_space (last s)"
  shows "strip s = s"
proof -
  have "dropWhile is_space s = s" using assms(1,2) by (rule dropWhile_hd)
  moreover have "dropWhile is_space (rev s) = rev s"
    using assms(1,3) by (intro dropWhile_hd) (simp_all add: hd_rev)
  ultimately show ?thesis by (simp add: strip_def)
qed

lemma bin_digits_ends:
  "hd (bin_digits n) \<in> {CHR ''0'', CHR ''1''}" "last (bin_digits n) \<in> {CHR ''0'', CHR ''1''}"
  using bin_digits_chars [of n] bin_digits_nonempty [of n]
    hd_in_set [of "bin_digits n"] last_in_set [of "bin_digits n"] by blast+

lemma strip_bin_digits:
  "strip (bin_digits n) = bin_digits n"
  "strip (CHR ''-'' # bin_digits n) = CHR ''-'' # bin_digits n"
proof -
  have e: "\<not> is_space (hd (bin_digits n))" "\<not> is_space (last (bin_digits n))"
    using bin_digits_ends [of n] by (auto simp: is_space_def)
  show "strip (bin_digits n) = bin_digits n"
    using e bin_digits_nonempty by (intro strip_plain)
  show "strip (CHR ''-'' # bin_digits n) = CHR ''-'' # bin_digits n"
    using e(2) bin_digits_nonempty [of n] by (intro strip_plain) (simp_all add: is_space_def)
qed

lemma py_int_bin_digits:
  "py_int base (bin_digits m) =
     (case unsigned_int base (bin_digits m) of
        None \<Rightarrow> Inl ValueError
      | Some v \<Rightarrow> Inr (int v))"
proof -
  obtain c cs where c: "bin_digits m = c # cs"
    using bin_digits_nonempty [of m] by (cases "bin_digits m") auto
  then have "c \<in> {CHR ''0'', CHR ''1''}" using bin_digits_ends(1) [of m] by simp
  then have s: "c \<noteq> CHR ''-''" "c \<noteq> CHR ''+''" by auto
  have "strip (c # cs) = c # cs" using strip_bin_digits(1) [of m] c by simp
  then show ?thesis using s by (simp add: py_int_def c)
qed

lemma py_int_minus_bin_digits:
  "py_int base (CHR ''-'' # bin_digits m) =
     (case unsigned_int base (bin_digits m) of
        None \<Rightarrow> Inl ValueError
      | Some v \<Rightarrow> Inr (- int v))"
  by (simp add: py_int_def strip_bin_digits)

text \<open>Reading the output of \<open>format_b\<close> at a base, in terms of the digits.\<close>

lemma py_int_format_b_digits:
  assumes "base = 2 \<or> base = 10"
  shows "py_int base (format_b n) =
     (case digits_val base (rev (bin_digits (nat \<bar>n\<bar>))) of
        None \<Rightarrow> Inl ValueError
      | Some v \<Rightarrow> Inr (if n < 0 then - int v else int v))"
proof (cases "n < 0")
  case True
  then have "nat (- n) = nat \<bar>n\<bar>" by simp
  then show ?thesis
    using True
    by (simp add: format_b_def py_int_minus_bin_digits unsigned_int_bin_digits [OF assms]
        split: option.splits)
next
  case False
  then have "nat n = nat \<bar>n\<bar>" by simp
  then show ?thesis
    using False
    by (simp add: format_b_def py_int_bin_digits unsigned_int_bin_digits [OF assms]
        split: option.splits)
qed

lemma py_int_format_b: "py_int 2 (format_b n) = Inr n"
  by (simp add: py_int_format_b_digits digits_val_bin_digits)

lemma py_int10_format_b: "\<exists>k. py_int 10 (format_b n) = Inr k \<and> (k = 0 \<longleftrightarrow> n = 0)"
proof -
  obtain v where "digits_val 10 (rev (bin_digits (nat \<bar>n\<bar>))) = Some v" "v = 0 \<longleftrightarrow> nat \<bar>n\<bar> = 0"
    using digits_val10_bin_digits [of "nat \<bar>n\<bar>"] by (elim exE conjE) (rule that)
  then show ?thesis by (auto simp: py_int_format_b_digits)
qed

lemma py_int_flags:
  "py_int 2 NOW_PLAYING = Inr 1" "py_int 2 STREAM_STATUS = Inr 2"
  "py_int 2 CHECK_LYRICS = Inr 4" "py_int 2 SWEAR_LOG = Inr 8" "py_int 2 UPDATE_REPO = Inr 128"
  "py_int 2 ''00000000'' = Inr 0"
  by code_simp+

lemma task_flag_val:
  assumes "py_int 2 event = Inr e" "py_int 2 flag = Inr f"
  shows "\<exists>k. task_flag event flag = Inr k \<and> (k = 0 \<longleftrightarrow> and e f = 0)"
  using assms py_int10_format_b [of "and e f"] by (simp add: task_flag_def bind_exn_def)

lemma task_flags_val:
  assumes "py_int 2 event = Inr e"
  shows "\<exists>s. task_flags event = Inr s
     \<and> (nowPlaying s = 0 \<longleftrightarrow> and e 1 = 0) \<and> (streamStatus s = 0 \<longleftrightarrow> and e 2 = 0)
     \<and> (checkLyrics s = 0 \<longleftrightarrow> and e 4 = 0) \<and> (swearLog s = 0 \<longleftrightarrow> and e 8 = 0)
     \<and> (updateRepo s = 0 \<longleftrightarrow> and e 128 = 0)
     \<and> nowPlayingClock s = 0 \<and> streamStatusClock s = 0 \<and> checkLyricsClock s = 0
     \<and> swearLogClock s = 0 \<and> updateRepoClock s = 0"
proof -
  obtain np where np: "task_flag event NOW_PLAYING = Inr np" "np = 0 \<longleftrightarrow> and e 1 = 0"
    using task_flag_val [OF assms py_int_flags(1)] by (elim exE conjE) (rule that)
  obtain ss where ss: "task_flag event STREAM_STATUS = Inr ss" "ss = 0 \<longleftrightarrow> and e 2 = 0"
    using task_flag_val [OF assms py_int_flags(2)] by (elim exE conjE) (rule that)
  obtain cl where cl: "task_flag event CHECK_LYRICS = Inr cl" "cl = 0 \<longleftrightarrow> and e 4 = 0"
    using task_flag_val [OF assms py_int_flags(3)] by (elim exE conjE) (rule that)
  obtain sl where sl: "task_flag event SWEAR_LOG = Inr sl" "sl = 0 \<longleftrightarrow> and e 8 = 0"
    using task_flag_val [OF assms py_int_flags(4)] by (elim exE conjE) (rule that)
  obtain ur where ur: "task_flag event UPDATE_REPO = Inr ur" "ur = 0 \<longleftrightarrow> and e 128 = 0"
    using task_flag_val [OF assms py_int_flags(5)] by (elim exE conjE) (rule that)
  define s where "s = \<lparr>nowPlaying = np, streamStatus = ss, updateRepo = ur, checkLyrics = cl,
            swearLog = sl, nowPlayingClock = 0, streamStatusClock = 0, updateRepoClock = 0,
            checkLyricsClock = 0, swearLogClock = 0\<rparr>"
  have 1: "task_flags event = Inr s"
    by (simp add: task_flags_def bind_exn_def np(1) ss(1) cl(1) sl(1) ur(1) s_def)
  have 2: "nowPlaying s = np" "streamStatus s = ss" "checkLyrics s = cl" "swearLog s = sl"
    "updateRepo s = ur" "nowPlayingClock s = 0" "streamStatusClock s = 0" "checkLyricsClock s = 0"
    "swearLogClock s = 0" "updateRepoClock s = 0"
    by (simp_all add: s_def)
  show ?thesis
    apply (rule exI [of _ s])
    unfolding 2
    using 1 np(2) ss(2) cl(2) sl(2) ur(2) by blast
qed

section \<open>Properties of the tick loop\<close>

text \<open>
  With no flag set a pass spawns nothing and raises nothing, whatever the frequency.
\<close>

lemma fire_tasks_off: "flags_off s \<Longrightarrow> fire_tasks spawn python frequency s = Inr ([], s)"
  by (simp add: fire_tasks_def fire_def trigger_def bind_exn_def flags_off_def)

lemma flags_off_advance: "flags_off (advance s) = flags_off s"
  by (simp add: flags_off_def advance_def)

lemma scheduler_loop_off:
  "flags_off s \<Longrightarrow> concat trace = []
   \<Longrightarrow> \<not> crashed (scheduler_loop fuel spawn python frequency env t s w trace)
     \<and> concat (trace_of (scheduler_loop fuel spawn python frequency env t s w trace)) = []"
proof (induction fuel arbitrary: t s w trace)
  case 0
  then show ?case by simp
next
  case (Suc fuel)
  have "flags_off (advance s)" using Suc.prems(1) by (simp add: flags_off_advance)
  moreover have "concat (trace @ [[]]) = []" using Suc.prems(2) by simp
  ultimately show ?case
    using Suc.IH [of "advance s" "trace @ [[]]"] Suc.prems
    by (simp add: fire_tasks_off Let_def)
qed

lemma scheduler_never_fires:
  assumes "py_int 2 event = Inr 0"
  shows "\<not> crashed (scheduler fuel spawn python env event frequency w)
     \<and> concat (trace_of (scheduler fuel spawn python env event frequency w)) = []"
proof -
  obtain s where s: "task_flags event = Inr s" "flags_off s"
    using task_flags_val [OF assms] by (auto simp: flags_off_def)
  then show ?thesis
    using scheduler_loop_off [of s "[]"] by (simp add: scheduler_def)
qed

text \<open>
  With a frequency other than zero no divisor is zero, and a pass has the closed form
  below: each task that is due is spawned and has its clock set to 1, the others keep
  their clocks.
\<close>

lemma trigger_ok:
  "d \<noteq> 0 \<Longrightarrow> trigger flag c d = Inr (flag \<noteq> 0 \<and> c mod d = 0)"
  by (simp add: trigger_def)

lemma fire_ok:
  "d \<noteq> 0 \<Longrightarrow> fire starts flag c d command spawned
     = Inr (flag \<noteq> 0 \<and> c mod d = 0,
            if flag \<noteq> 0 \<and> c mod d = 0 then spawned @ [command] else spawned)"
  by (simp add: fire_def trigger_ok starts_def)

lemma fire_tasks_closed:
  assumes "frequency \<noteq> 0"
  shows "fire_tasks starts python frequency s =
    Inr (concat (map (\<lambda>t. if due frequency s t then [command_of python t] else [])
                     [NowPlaying, StreamStatus, CheckLyrics, SwearLog, UpdateRepo]),
         s\<lparr>nowPlayingClock := (if due frequency s NowPlaying then 1 else nowPlayingClock s),
           streamStatusClock := (if due frequency s StreamStatus then 1 else streamStatusClock s),
           checkLyricsClock := (if due frequency s CheckLyrics then 1 else checkLyricsClock s),
           swearLogClock := (if due frequency s SwearLog then 1 else swearLogClock s),
           updateRepoClock := (if due frequency s UpdateRepo then 1 else updateRepoClock s)\<rparr>)"
proof -
  define b1 where "b1 = due frequency s NowPlaying"
  define b2 where "b2 = due frequency s StreamStatus"
  define b3 where "b3 = due frequency s CheckLyrics"
  define b4 where "b4 = due frequency s SwearLog"
  define b5 where "b5 = due frequency s UpdateRepo"
  define s1 where "s1 = (if b1 then s\<lparr>nowPlayingClock := 1\<rparr> else s)"
  define s2 where "s2 = (if b2 then s1\<lparr>streamStatusClock := 1\<rparr> else s1)"
  define s3 where "s3 = (if b3 then s2\<lparr>checkLyricsClock := 1\<rparr> else s2)"
  define s4 where "s4 = (if b4 then s3\<lparr>swearLogClock := 1\<rparr> else s3)"
  define s5 where "s5 = (if b5 then s4\<lparr>updateRepoClock := 1\<rparr> else s4)"
  define c1 where "c1 = (if b1 then [] @ [python @ '' teqbot task --nowplaying''] else [])"
  define c2 where "c2 = (if b2 then c1 @ [python @ '' teqbot task --status''] else c1)"
  define c3 where "c3 = (if b3 then c2 @ [python @ '' teqbot task --lyric''] else c2)"
  define c4 where "c4 = (if b4 then c3 @ [python @ '' teqbot task --swear''] else c3)"
  define c5 where "c5 = (if b5 then c4 @ [python @ '' teqbot task --update''] else c4)"
  have f1: "fire starts (nowPlaying s) (nowPlayingClock s) (frequency * 2)
                 (python @ '' teqbot task --nowplaying'') [] = Inr (b1, c1)"
    by (simp add: fire_ok assms b1_def c1_def due_def)
  have g2: "streamStatus s1 = streamStatus s" "streamStatusClock s1 = streamStatusClock s"
    by (simp_all add: s1_def)
  have f2: "fire starts (streamStatus s1) (streamStatusClock s1) (frequency * 20)
                 (python @ '' teqbot task --status'') c1 = Inr (b2, c2)"
    by (simp add: fire_ok assms g2 b2_def c2_def due_def)
  have g3: "checkLyrics s2 = checkLyrics s" "checkLyricsClock s2 = checkLyricsClock s"
    by (simp_all add: s2_def s1_def)
  have f3: "fire starts (checkLyrics s2) (checkLyricsClock s2) frequency
                 (python @ '' teqbot task --lyric'') c2 = Inr (b3, c3)"
    by (simp add: fire_ok assms g3 b3_def c3_def due_def)
  have g4: "swearLog s3 = swearLog s" "swearLogClock s3 = swearLogClock s"
    by (simp_all add: s3_def s2_def s1_def)
  have f4: "fire starts (swearLog s3) (swearLogClock s3) frequency
                 (python @ '' teqbot task --swear'') c3 = Inr (b4, c4)"
    by (simp add: fire_ok assms g4 b4_def c4_def due_def)
  have g5: "updateRepo s4 = updateRepo s" "updateRepoClock s4 = updateRepoClock s"
    by (simp_all add: s4_def s3_def s2_def s1_def)
  have f5: "fire starts (updateRepo s4) (updateRepoClock s4) (frequency * 1200)
                 (python @ '' teqbot task --update'') c4 = Inr (b5, c5)"
    by (simp add: fire_ok assms g5 b5_def c5_def due_def)
  have run: "fire_tasks starts python frequency s = Inr (c5, s5)"
    unfolding fire_tasks_def
    by (simp only: f1 bind_exn_def sum.case prod.case Let_def s1_def [symmetric]
          f2 s2_def [symmetric] f3 s3_def [symmetric] f4 s4_def [symmetric] f5
          s5_def [symmetric])
  have c: "c5 = concat (map (\<lambda>t. if due frequency s t then [command_of python t] else [])
                     [NowPlaying, StreamStatus, CheckLyrics, SwearLog, UpdateRepo])"
    by (simp add: c5_def c4_def c3_def c2_def c1_def b1_def b2_def b3_def b4_def b5_def)
  have s: "s5 = s\<lparr>nowPlayingClock := (if due frequency s NowPlaying then 1 else nowPlayingClock s),
           streamStatusClock := (if due frequency s StreamStatus then 1 else streamStatusClock s),
           checkLyricsClock := (if due frequency s CheckLyrics then 1 else checkLyricsClock s),
           swearLogClock := (if due frequency s SwearLog then 1 else swearLogClock s),
           updateRepoClock := (if due frequency s UpdateRepo then 1 else updateRepoClock s)\<rparr>"
    by (simp add: s5_def s4_def s3_def s2_def s1_def b1_def [symmetric] b2_def [symmetric]
        b3_def [symmetric] b4_def [symmetric] b5_def [symmetric])
  from run c s show ?thesis by simp
qed

lemma fire_tasks_ok:
  "frequency \<noteq> 0 \<Longrightarrow> \<exists>c s'. fire_tasks starts python frequency s = Inr (c, s')"
  by (simp add: fire_tasks_closed)

lemma pass_step:
  assumes "frequency \<noteq> 0" "fire_tasks starts python frequency s = Inr (c, s')"
  shows "(command_of python t \<in> set c) = due frequency s t"
    and "clock_of (advance s') t = (if due frequency s t then 2 else clock_of s t + 1)"
    and "enabled (advance s') t = enabled s t"
proof -
  note cf = fire_tasks_closed [OF assms(1), of python s]
  from assms(2) cf show "(command_of python t \<in> set c) = due frequency s t"
    by (cases t) auto
  from assms(2) cf
  show "clock_of (advance s') t = (if due frequency s t then 2 else clock_of s t + 1)"
    by (cases t) (auto simp: advance_def)
  from assms(2) cf show "enabled (advance s') t = enabled s t"
    by (cases t) (auto simp: advance_def)
qed

lemma stat_file_delete: "stat_file (delete_stat_file w) = None"
  by (simp add: delete_stat_file_def split: option.splits)

lemma scheduler_loop_done:
  assumes "frequency \<noteq> 0" "check_stat_file ''Done'' (files_after env t w k)"
  shows "\<exists>j w' tr. j \<le> k \<and> length tr = Suc j \<and> stat_file w' = None
           \<and> (\<forall>fuel>k. scheduler_loop fuel starts python frequency env t s w trace
                          = Finished w' (trace @ tr))"
  using assms(2)
proof (induction k arbitrary: t s w trace)
  case 0
  obtain c s1 where f: "fire_tasks starts python frequency s = Inr (c, s1)"
    using fire_tasks_ok [OF assms(1)] by blast
  have "scheduler_loop fuel starts python frequency env t s w trace
          = Finished (delete_stat_file (env t w)) (trace @ [c])" if "fuel > 0" for fuel
  proof -
    have "fuel = Suc (fuel - 1)" using that by simp
    then obtain n where "fuel = Suc n" ..
    then show ?thesis using f 0 by (simp add: Let_def)
  qed
  then show ?case
    by (intro exI [of _ 0] exI [of _ "delete_stat_file (env t w)"] exI [of _ "[c]"])
       (simp add: stat_file_delete)
next
  case (Suc k)
  obtain c s1 where f: "fire_tasks starts python frequency s = Inr (c, s1)"
    using fire_tasks_ok [OF assms(1)] by blast
  show ?case
  proof (cases "check_stat_file ''Done'' (env t w)")
    case True
    have "scheduler_loop fuel starts python frequency env t s w trace
          = Finished (delete_stat_file (env t w)) (trace @ [c])" if "fuel > Suc k" for fuel
    proof -
      have "fuel = Suc (fuel - 1)" using that by simp
    then obtain n where "fuel = Suc n" ..
      then show ?thesis using f True by (simp add: Let_def)
    qed
    then show ?thesis
      by (intro exI [of _ 0] exI [of _ "delete_stat_file (env t w)"] exI [of _ "[c]"])
         (simp add: stat_file_delete)
  next
    case False
    have "check_stat_file ''Done'' (files_after env (Suc t) (env t w) k)"
      using Suc.prems by simp
    from Suc.IH [OF this, of "advance s1" "trace @ [c]"]
    obtain j w' tr where j: "j \<le> k" "length tr = Suc j" "stat_file w' = None"
      "\<forall>fuel>k. scheduler_loop fuel starts python frequency env (Suc t) (advance s1) (env t w)
                    (trace @ [c]) = Finished w' ((trace @ [c]) @ tr)"
      by blast
    have "scheduler_loop fuel starts python frequency env t s w trace = Finished w' (trace @ (c # tr))"
      if "fuel > Suc k" for fuel
    proof -
      have "fuel = Suc (fuel - 1) \<and> fuel - 1 > k" using that by simp
      then obtain n where n: "fuel = Suc n" "n > k" by blast
      then show ?thesis using f False j(4) by (simp add: Let_def)
    qed
    then show ?thesis using j(1,2,3)
      by (intro exI [of _ "Suc j"] exI [of _ w'] exI [of _ "c # tr"]) simp
  qed
qed

text \<open>
  Let every command start, the frequency be other than zero and the event string be read
  by \<^verbatim>\<open>int(event, 2)\<close>, so that the loop starts and no pass raises. If the status file reads
  \<^verbatim>\<open>Done\<close> at the test that ends the pass numbered \<open>k\<close>, then the loop returns at that test
  or at an earlier one: it makes \<open>j + 1\<close> passes for some \<open>j \<le> k\<close>, every run allowed more
  than \<open>k\<close> passes gives this same result, and the status file does not exist in the state
  it leaves.
\<close>

lemma scheduler_returns_when_done_is_read:
  assumes "frequency \<noteq> 0" "py_int 2 event = Inr e"
    and "check_stat_file ''Done'' (files_after env 0 (seed w) k)"
  shows "\<exists>j w' tr. j \<le> k \<and> length tr = Suc j \<and> stat_file w' = None
           \<and> (\<forall>fuel>k. scheduler fuel starts python env event frequency w = Finished w' tr)"
proof -
  obtain s where s: "task_flags event = Inr s"
    using task_flags_val [OF assms(2)] by (elim exE conjE) (rule that)
  from scheduler_loop_done [OF assms(1,3), of python s "[]"] s show ?thesis
    by (simp add: scheduler_def seed_def)
qed

text \<open>
  C6 at a run started by \<^verbatim>\<open>teqbot scheduler -n -s\<close> (event \<^verbatim>\<open>11\<close>, frequency 5) on a system
  where every command starts. During the pass numbered 3 a \<^verbatim>\<open>kill\<close> command writes \<^verbatim>\<open>Done\<close>,
  and before the loop tests the file a stream-health task that finds the stream down
  comes to its end and writes \<^verbatim>\<open>Stream Down\<close> over it. The loop does not return: after
  thirty passes it is still going, the status file exists and holds \<^verbatim>\<open>Stream Down\<close>.
\<close>

theorem done_overwritten_before_the_poll:
  "still_running
     (scheduler 30 starts ''python3'' (kill_then_status 3 (\<lambda>i. UrlError)) ''11'' 5 empty_world)
   \<and> length (trace_of
       (scheduler 30 starts ''python3'' (kill_then_status 3 (\<lambda>i. UrlError)) ''11'' 5
          empty_world)) = 30
   \<and> stat_file (files_of
       (scheduler 30 starts ''python3'' (kill_then_status 3 (\<lambda>i. UrlError)) ''11'' 5
          empty_world)) = Some ''Stream Down''"
  by code_simp

text \<open>
  The passes in which an enabled task is spawned. With the clock set to 1 after a
  spawn and incremented before the next test, the clock reads 2 one pass after the spawn
  and reaches the divisor \<open>d\<close> after \<open>d - 1\<close> passes.
\<close>

lemma clock_arith:
  fixes d :: int and m :: nat
  assumes "2 \<le> d"
  shows "((2 + int (m mod nat (d - 1))) mod d = 0) = (Suc m mod nat (d - 1) = 0)"
proof -
  define p where "p = nat (d - 1)"
  have p: "0 < p" "int p = d - 1" using assms by (simp_all add: p_def)
  have r: "m mod p < p" using p(1) by simp
  define x where "x = 2 + int (m mod p)"
  have x: "0 < x" "x \<le> d" using r p(2) by (simp_all add: x_def)
  have "(x mod d = 0) = (x = d)"
  proof (cases "x = d")
    case True
    then show ?thesis by simp
  next
    case False
    then have "x mod d = x" using x by simp
    then show ?thesis using x(1) False by simp
  qed
  also have "\<dots> = (Suc (m mod p) = p)" using p(2) by (auto simp: x_def)
  also have "\<dots> = (Suc m mod p = 0)" using p(1) by (auto simp: mod_Suc)
  finally show ?thesis by (simp add: x_def p_def)
qed

lemma clock_at_due:
  assumes "2 \<le> d"
  shows "(clock_at d n mod d = 0) = (n mod nat (d - 1) = 0)"
  using clock_arith [OF assms] by (cases n) (simp_all add: clock_at_def)

lemma clock_at_next:
  assumes "2 \<le> d"
  shows "(if clock_at d n mod d = 0 then 2 else clock_at d n + 1) = clock_at d (Suc n)"
proof (cases n)
  case 0
  then show ?thesis by (simp add: clock_at_def)
next
  case (Suc m)
  have p: "0 < nat (d - 1)" using assms by simp
  show ?thesis
    using clock_arith [OF assms, of m] p
    by (auto simp: Suc clock_at_def mod_Suc)
qed

lemma scheduler_loop_period:
  assumes "frequency \<noteq> 0" "2 \<le> divisor_of frequency t"
  shows "enabled s t \<Longrightarrow> clock_of s t = clock_at (divisor_of frequency t) (length trace)
    \<Longrightarrow> (\<forall>i < length trace. (command_of python t \<in> set (trace ! i))
                                  = (i mod nat (divisor_of frequency t - 1) = 0))
    \<Longrightarrow> (\<forall>i < length (trace_of (scheduler_loop fuel starts python frequency env tick s w trace)).
          (command_of python t
             \<in> set (trace_of (scheduler_loop fuel starts python frequency env tick s w trace) ! i))
          = (i mod nat (divisor_of frequency t - 1) = 0))"
proof (induction fuel arbitrary: tick s w trace)
  case 0
  then show ?case by simp
next
  case (Suc fuel)
  obtain c s1 where f: "fire_tasks starts python frequency s = Inr (c, s1)"
    using fire_tasks_ok [OF assms(1)] by blast
  note st = pass_step [OF assms(1) f, of t]
  have d: "due frequency s t = (length trace mod nat (divisor_of frequency t - 1) = 0)"
    using Suc.prems(1,2) clock_at_due [OF assms(2)] by (simp add: due_def)
  have 1: "enabled (advance s1) t" using st(3) Suc.prems(1) by simp
  have "clock_of (advance s1) t
          = (if clock_at (divisor_of frequency t) (length trace) mod divisor_of frequency t = 0
             then 2 else clock_at (divisor_of frequency t) (length trace) + 1)"
    using st(2) Suc.prems(1,2) by (simp add: due_def)
  then have 2: "clock_of (advance s1) t
                  = clock_at (divisor_of frequency t) (length (trace @ [c]))"
    by (simp only: clock_at_next [OF assms(2)] length_append_singleton)
  have 3: "\<forall>i < length (trace @ [c]). (command_of python t \<in> set ((trace @ [c]) ! i))
                                  = (i mod nat (divisor_of frequency t - 1) = 0)"
    using Suc.prems(3) st(1) d by (auto simp: nth_append less_Suc_eq)
  show ?case
  proof (cases "check_stat_file ''Done'' (env tick w)")
    case True
    then show ?thesis using f 3 by (simp add: Let_def)
  next
    case False
    then show ?thesis
      using f Suc.IH [OF 1 2 3, of "Suc tick" "env tick w"] by (simp add: Let_def)
  qed
qed

text \<open>
  For a frequency other than zero and an enabled task whose divisor \<open>d\<close> is at least 2,
  the task is spawned in the passes whose number is a multiple of \<open>d - 1\<close> and in no
  other pass, for as long as the loop runs.
\<close>

lemma scheduler_period:
  assumes "frequency \<noteq> 0" "2 \<le> divisor_of frequency t"
    and "py_int 2 event = Inr e" "and e (task_bit t) \<noteq> 0"
  shows "\<forall>i < length (trace_of (scheduler fuel starts python env event frequency w)).
          (command_of python t \<in> set (trace_of (scheduler fuel starts python env event frequency w) ! i))
          = (i mod nat (divisor_of frequency t - 1) = 0)"
proof -
  obtain s where s: "task_flags event = Inr s"
     "nowPlaying s = 0 \<longleftrightarrow> and e 1 = 0" "streamStatus s = 0 \<longleftrightarrow> and e 2 = 0"
     "checkLyrics s = 0 \<longleftrightarrow> and e 4 = 0" "swearLog s = 0 \<longleftrightarrow> and e 8 = 0"
     "updateRepo s = 0 \<longleftrightarrow> and e 128 = 0"
     "nowPlayingClock s = 0" "streamStatusClock s = 0" "checkLyricsClock s = 0"
     "swearLogClock s = 0" "updateRepoClock s = 0"
    using task_flags_val [OF assms(3)] by (elim exE conjE) (rule that)
  have en: "enabled s t" using assms(4) s(2-6) by (cases t) simp_all
  have cl: "clock_of s t = clock_at (divisor_of frequency t) (length ([] :: string list list))"
    using s(7-11) by (cases t) (simp_all add: clock_at_def)
  from scheduler_loop_period [OF assms(1,2) en cl, of python fuel env 0] s(1)
  show ?thesis by (simp add: scheduler_def)
qed

text \<open>
  C1 at the event \<^verbatim>\<open>100\<close> (the lyric task alone) and the standard frequency 5, with every
  command starting and nothing writing the status file during eleven passes: the divisor is 5, and the task is spawned
  in the passes 0, 4 and 8, four passes apart.
\<close>

theorem lyric_task_fires_every_fourth_pass:
  "trace_of (scheduler 11 starts ''python3'' (\<lambda>t w. w) ''100'' 5 empty_world)
     = [[''python3 teqbot task --lyric''], [], [], [],
        [''python3 teqbot task --lyric''], [], [], [],
        [''python3 teqbot task --lyric''], [], []]"
  by code_simp

section \<open>Properties of the flag decoder\<close>

lemma or_flag_val:
  "py_int 2 event = Inr e \<Longrightarrow> py_int 2 flag = Inr f
   \<Longrightarrow> or_flag event flag = Inr (format_b (or e f))"
  by (simp add: or_flag_def bind_exn_def)

lemma decode_option_val:
  assumes "py_int 2 event = Inr e" "py_int 2 flag = Inr f"
  shows "\<exists>ev. decode_option args long short flag event = Inr ev
           \<and> py_int 2 ev = Inr (if long \<in> set args \<or> short \<in> set args then or e f else e)
           \<and> (\<not> (long \<in> set args \<or> short \<in> set args) \<longrightarrow> ev = event)"
  using assms by (simp add: decode_option_def or_flag_val py_int_format_b)

lemma decode_event_val:
  "\<exists>ev. decode_event args = Inr ev \<and> py_int 2 ev = Inr (token_mask args)
        \<and> ((\<forall>t. \<not> requested args t) \<longrightarrow> ev = ''00000000'')"
proof -
  define m1 :: int where "m1 = (if ''--nowplaying'' \<in> set args \<or> ''-n'' \<in> set args then or 0 1 else 0)"
  define m2 where "m2 = (if ''--status'' \<in> set args \<or> ''-s'' \<in> set args then or m1 2 else m1)"
  define m3 where "m3 = (if ''--lyric'' \<in> set args \<or> ''-l'' \<in> set args then or m2 4 else m2)"
  define m4 where "m4 = (if ''--swear'' \<in> set args \<or> ''-w'' \<in> set args then or m3 8 else m3)"
  define m5 where "m5 = (if ''--update'' \<in> set args \<or> ''-u'' \<in> set args then or m4 128 else m4)"
  obtain e1 where e1: "decode_option args ''--nowplaying'' ''-n'' NOW_PLAYING ''00000000'' = Inr e1"
    "py_int 2 e1 = Inr m1"
    "\<not> (''--nowplaying'' \<in> set args \<or> ''-n'' \<in> set args) \<longrightarrow> e1 = ''00000000''"
    using decode_option_val [OF py_int_flags(6) py_int_flags(1), of args] unfolding m1_def by blast
  obtain e2 where e2: "decode_option args ''--status'' ''-s'' STREAM_STATUS e1 = Inr e2"
    "py_int 2 e2 = Inr m2"
    "\<not> (''--status'' \<in> set args \<or> ''-s'' \<in> set args) \<longrightarrow> e2 = e1"
    using decode_option_val [OF e1(2) py_int_flags(2), of args] unfolding m2_def by blast
  obtain e3 where e3: "decode_option args ''--lyric'' ''-l'' CHECK_LYRICS e2 = Inr e3"
    "py_int 2 e3 = Inr m3"
    "\<not> (''--lyric'' \<in> set args \<or> ''-l'' \<in> set args) \<longrightarrow> e3 = e2"
    using decode_option_val [OF e2(2) py_int_flags(3), of args] unfolding m3_def by blast
  obtain e4 where e4: "decode_option args ''--swear'' ''-w'' SWEAR_LOG e3 = Inr e4"
    "py_int 2 e4 = Inr m4"
    "\<not> (''--swear'' \<in> set args \<or> ''-w'' \<in> set args) \<longrightarrow> e4 = e3"
    using decode_option_val [OF e3(2) py_int_flags(4), of args] unfolding m4_def by blast
  obtain e5 where e5: "decode_option args ''--update'' ''-u'' UPDATE_REPO e4 = Inr e5"
    "py_int 2 e5 = Inr m5"
    "\<not> (''--update'' \<in> set args \<or> ''-u'' \<in> set args) \<longrightarrow> e5 = e4"
    using decode_option_val [OF e4(2) py_int_flags(5), of args] unfolding m5_def by blast
  have d: "decode_event args = Inr e5"
    by (simp add: decode_event_def bind_exn_def e1(1) e2(1) e3(1) e4(1) e5(1))
  have "token_mask args = m5"
    by (simp add: token_mask_def mask_of_def all_tasks_def requested_def
        m1_def m2_def m3_def m4_def m5_def)
  then have v: "py_int 2 e5 = Inr (token_mask args)" using e5(2) by simp
  have z: "e5 = ''00000000''" if "\<forall>t. \<not> requested args t"
  proof -
    have "\<not> requested args NowPlaying" "\<not> requested args StreamStatus"
      "\<not> requested args CheckLyrics" "\<not> requested args SwearLog" "\<not> requested args UpdateRepo"
      using that by blast+
    then show ?thesis
      using e1(3) e2(3) e3(3) e4(3) e5(3) by (simp add: requested_def)
  qed
  from d v z show ?thesis by blast
qed

lemma and_mask_of: "(and (mask_of S) (task_bit t) \<noteq> 0) = S t"
  by (cases t) (simp_all add: mask_of_def all_tasks_def)

lemma requested_cong: "set args = set args' \<Longrightarrow> requested args = requested args'"
  by (simp add: requested_def fun_eq_iff)

lemma decode_event_cong:
  assumes "requested args = requested args'"
  shows "decode_event args = decode_event args'"
proof -
  have "requested args t = requested args' t" for t using assms by simp
  from this [of NowPlaying] this [of StreamStatus] this [of CheckLyrics] this [of SwearLog]
    this [of UpdateRepo]
  show ?thesis by (simp add: decode_event_def decode_option_def requested_def)
qed

lemma requested_filter: "requested (filter is_task_token args) = requested args"
  unfolding fun_eq_iff
proof
  fix t show "requested (filter is_task_token args) t = requested args t"
    by (cases t) (auto simp: requested_def is_task_token_def all_tasks_def)
qed

lemma requested_scheduler: "requested (''SCHEDULER'' # rest) = requested rest"
  unfolding fun_eq_iff
proof
  fix t show "requested (''SCHEDULER'' # rest) t = requested rest t"
    by (cases t) (auto simp: requested_def)
qed

lemma command_handler_scheduler:
  assumes "upper a = ''SCHEDULER''" "''USAGE'' \<notin> set rest" "''MESSAGE'' \<notin> set rest"
  shows "command_handler (a # rest) = bind_exn (decode_event rest) (\<lambda>event. Inr (Scheduler event))"
  using assms decode_event_cong [OF requested_scheduler, of rest]
  by (simp add: command_handler_def)

lemma not_task_token: "\<not> is_task_token ''USAGE''" "\<not> is_task_token ''MESSAGE''"
  by (simp_all add: is_task_token_def all_tasks_def)

text \<open>
  C2, as the code has it. Take arguments whose first word is \<^verbatim>\<open>scheduler\<close> in any case of
  letters and whose other words are neither \<^verbatim>\<open>USAGE\<close> nor \<^verbatim>\<open>MESSAGE\<close> (either of these
  selects another command). Then \<^verbatim>\<open>command_handler\<close> starts the scheduler with an event that
  reads, in base 2, as the OR of the bits of the requested tasks; removing repeated
  tokens or removing every token that is not a task token gives the same event; and when
  no task is requested, be it that no token is given or that none is recognised, the
  event is \<^verbatim>\<open>00000000\<close>, the mask is zero, and the scheduler, however long it runs, neither
  raises nor spawns a task.
\<close>

theorem decoder_masks:
  assumes "upper a = ''SCHEDULER''" "''USAGE'' \<notin> set rest" "''MESSAGE'' \<notin> set rest"
  shows "\<exists>event. command_handler (a # rest) = Inr (Scheduler event)
      \<and> py_int 2 event = Inr (token_mask rest)
      \<and> command_handler (a # remdups rest) = Inr (Scheduler event)
      \<and> command_handler (a # filter is_task_token rest) = Inr (Scheduler event)
      \<and> ((\<forall>t. \<not> requested rest t) \<longrightarrow> event = ''00000000'' \<and> token_mask rest = 0
           \<and> (\<forall>fuel spawn python env frequency w.
                 \<not> crashed (scheduler fuel spawn python env event frequency w)
                 \<and> concat (trace_of (scheduler fuel spawn python env event frequency w)) = []))"
proof -
  obtain ev where ev: "decode_event rest = Inr ev" "py_int 2 ev = Inr (token_mask rest)"
    "(\<forall>t. \<not> requested rest t) \<longrightarrow> ev = ''00000000''"
    using decode_event_val [of rest] by blast
  have 1: "command_handler (a # rest) = Inr (Scheduler ev)"
    using command_handler_scheduler [OF assms] ev(1) by (simp add: bind_exn_def)
  have "decode_event (remdups rest) = decode_event rest"
    by (rule decode_event_cong [OF requested_cong]) simp
  then have 2: "command_handler (a # remdups rest) = Inr (Scheduler ev)"
    using command_handler_scheduler [of a "remdups rest"] assms ev(1) by (simp add: bind_exn_def)
  have "decode_event (filter is_task_token rest) = decode_event rest"
    by (rule decode_event_cong [OF requested_filter])
  then have 3: "command_handler (a # filter is_task_token rest) = Inr (Scheduler ev)"
    using command_handler_scheduler [of a "filter is_task_token rest"] assms(1) ev(1) not_task_token
    by (simp add: bind_exn_def)
  have 4: "ev = ''00000000'' \<and> token_mask rest = 0
           \<and> (\<forall>fuel spawn python env frequency w.
                 \<not> crashed (scheduler fuel spawn python env ev frequency w)
                 \<and> concat (trace_of (scheduler fuel spawn python env ev frequency w)) = [])"
    if "\<forall>t. \<not> requested rest t"
  proof -
    have z: "ev = ''00000000''" using that ev(3) by simp
    have "token_mask rest = 0" using ev(2) z py_int_flags(6) by simp
    then show ?thesis using z ev(2) scheduler_never_fires [of ev] by simp
  qed
  from 1 2 3 4 ev(2) show ?thesis by blast
qed

theorem decoder_masks_witness:
  "upper ''scheduler'' = ''SCHEDULER''
   \<and> ''USAGE'' \<notin> set [''--bogus'', ''-x'', ''-x'']
   \<and> ''MESSAGE'' \<notin> set [''--bogus'', ''-x'', ''-x'']
   \<and> (\<forall>t. \<not> requested [''--bogus'', ''-x'', ''-x''] t)
   \<and> command_handler [''scheduler'', ''--bogus'', ''-x'', ''-x''] = Inr (Scheduler ''00000000'')
   \<and> token_mask [''--bogus'', ''-x'', ''-x''] = 0
   \<and> concat (trace_of (scheduler 10 starts ''python3'' (\<lambda>t w. w) ''00000000'' 5 empty_world)) = []"
proof -
  have u: "upper ''scheduler'' = ''SCHEDULER''" by (simp add: upper_def upper_char_def)
  have n: "''USAGE'' \<notin> set [''--bogus'', ''-x'', ''-x'']"
    "''MESSAGE'' \<notin> set [''--bogus'', ''-x'', ''-x'']" by simp_all
  have r: "\<forall>t. \<not> requested [''--bogus'', ''-x'', ''-x''] t"
  proof
    fix t show "\<not> requested [''--bogus'', ''-x'', ''-x''] t"
      by (cases t) (simp_all add: requested_def)
  qed
  from decoder_masks [OF u n] r u show ?thesis by auto
qed

text \<open>
  With no token at all the event handed to the scheduler is \<^verbatim>\<open>00000000\<close>, which reads as
  0, not the default \<^verbatim>\<open>11111111\<close> of the scheduler's parameter, which reads as 255.
\<close>

theorem no_tokens_decode_to_zero_mask:
  "command_handler [''scheduler''] = Inr (Scheduler ''00000000'')
   \<and> py_int 2 ''00000000'' = Inr 0 \<and> py_int 2 ''11111111'' = Inr 255"
proof -
  have "command_handler [''scheduler''] = Inr (Scheduler ''00000000'')"
    by (simp add: command_handler_def upper_def upper_char_def decode_event_def
        decode_option_def bind_exn_def)
  moreover have "py_int 2 ''11111111'' = Inr 255" by code_simp
  ultimately show ?thesis by (simp add: py_int_flags)
qed

lemma encode_tokens_mask_of:
  "encode_tokens short (mask_of S)
     = concat (map (\<lambda>t. if S t then [if short t then short_token t else long_token t] else [])
                   all_tasks)"
  by (simp add: encode_tokens_def and_mask_of)

lemma requested_encode: "requested (encode_tokens short (mask_of S)) t = S t"
  unfolding encode_tokens_mask_of
  by (cases t) (simp_all add: requested_def all_tasks_def)

lemma encode_tokens_task_tokens: "\<forall>x \<in> set (encode_tokens short m). is_task_token x"
  by (auto simp: encode_tokens_def is_task_token_def all_tasks_def split: if_splits)

lemma token_mask_encode: "token_mask (encode_tokens short (mask_of S)) = mask_of S"
proof -
  have "requested (encode_tokens short (mask_of S)) = S"
    by (simp add: fun_eq_iff requested_encode)
  then show ?thesis by (simp add: token_mask_def)
qed

text \<open>
  C9. For every set \<open>S\<close> of the five task flags, with mask \<open>mask_of S\<close>, and every choice
  between the short and the long token of each task: \<^verbatim>\<open>command_handler\<close>, given
  \<^verbatim>\<open>scheduler\<close> and the tokens that encode the mask, starts the scheduler with an event that
  reads, in base 2, as the same mask, and the scheduler computes from that event exactly
  the flags of \<open>S\<close>.
\<close>

theorem mask_round_trip:
  "\<exists>ev s. command_handler (''scheduler'' # encode_tokens short (mask_of S)) = Inr (Scheduler ev)
     \<and> py_int 2 ev = Inr (mask_of S)
     \<and> task_flags ev = Inr s
     \<and> (nowPlaying s \<noteq> 0) = S NowPlaying
     \<and> (streamStatus s \<noteq> 0) = S StreamStatus
     \<and> (checkLyrics s \<noteq> 0) = S CheckLyrics
     \<and> (swearLog s \<noteq> 0) = S SwearLog
     \<and> (updateRepo s \<noteq> 0) = S UpdateRepo"
proof -
  let ?toks = "encode_tokens short (mask_of S)"
  have u: "upper ''scheduler'' = ''SCHEDULER''" by (simp add: upper_def upper_char_def)
  have n: "''USAGE'' \<notin> set ?toks" "''MESSAGE'' \<notin> set ?toks"
    using encode_tokens_task_tokens [of short "mask_of S"] not_task_token by blast+
  obtain ev where ev: "decode_event ?toks = Inr ev" "py_int 2 ev = Inr (token_mask ?toks)"
    using decode_event_val [of ?toks] by (elim exE conjE) (rule that)
  have c: "command_handler (''scheduler'' # ?toks) = Inr (Scheduler ev)"
    using command_handler_scheduler [OF u n] ev(1) by (simp add: bind_exn_def)
  have m: "py_int 2 ev = Inr (mask_of S)" using ev(2) by (simp add: token_mask_encode)
  obtain s where s: "task_flags ev = Inr s"
     "nowPlaying s = 0 \<longleftrightarrow> and (mask_of S) 1 = 0" "streamStatus s = 0 \<longleftrightarrow> and (mask_of S) 2 = 0"
     "checkLyrics s = 0 \<longleftrightarrow> and (mask_of S) 4 = 0" "swearLog s = 0 \<longleftrightarrow> and (mask_of S) 8 = 0"
     "updateRepo s = 0 \<longleftrightarrow> and (mask_of S) 128 = 0"
    using task_flags_val [OF m] by (elim exE conjE) (rule that)
  have f: "(nowPlaying s \<noteq> 0) = S NowPlaying" "(streamStatus s \<noteq> 0) = S StreamStatus"
    "(checkLyrics s \<noteq> 0) = S CheckLyrics" "(swearLog s \<noteq> 0) = S SwearLog"
    "(updateRepo s \<noteq> 0) = S UpdateRepo"
    using s(2-6) and_mask_of [of S NowPlaying] and_mask_of [of S StreamStatus]
      and_mask_of [of S CheckLyrics] and_mask_of [of S SwearLog] and_mask_of [of S UpdateRepo]
    by simp_all
  from c m s(1) f show ?thesis by (intro exI conjI)
qed

end
